theory Spec2Isabelle
  imports Complex_Main "HOL-Library.AList"
begin

section \<open>Strings\<close>

text \<open>
  Python strings are modelled as \<open>string\<close> (a list of bytes; non-ASCII text is its UTF-8
  encoding). \<open>str.lower\<close>, \<open>str.title\<close> and SQLite's identifier comparison are modelled on
  the ASCII letters only: every other byte is left as it is.
\<close>

definition is_upper :: "char \<Rightarrow> bool" where
  "is_upper c = (65 \<le> (of_char c :: nat) \<and> (of_char c :: nat) \<le> 90)"

definition is_lower :: "char \<Rightarrow> bool" where
  "is_lower c = (97 \<le> (of_char c :: nat) \<and> (of_char c :: nat) \<le> 122)"

definition is_cased :: "char \<Rightarrow> bool" where
  "is_cased c = (is_upper c \<or> is_lower c)"

text \<open>Upper and lower case ASCII letters differ in bit 5 only (value 32).\<close>

fun lower_char :: "char \<Rightarrow> char" where
  "lower_char (Char b0 b1 b2 b3 b4 b5 b6 b7) =
     (if is_upper (Char b0 b1 b2 b3 b4 b5 b6 b7)
      then Char b0 b1 b2 b3 b4 True b6 b7 else Char b0 b1 b2 b3 b4 b5 b6 b7)"

fun upper_char :: "char \<Rightarrow> char" where
  "upper_char (Char b0 b1 b2 b3 b4 b5 b6 b7) =
     (if is_lower (Char b0 b1 b2 b3 b4 b5 b6 b7)
      then Char b0 b1 b2 b3 b4 False b6 b7 else Char b0 b1 b2 b3 b4 b5 b6 b7)"

text \<open>\<^verbatim>\<open>s.lower()\<close>\<close>

definition lower :: "string \<Rightarrow> string" where
  "lower s = map lower_char s"

text \<open>\<^verbatim>\<open>p in s\<close> on strings: \<open>p\<close> occurs in \<open>s\<close> as a contiguous substring.\<close>

fun starts_with :: "string \<Rightarrow> string \<Rightarrow> bool" where
  "starts_with [] s = True"
| "starts_with (p # ps) [] = False"
| "starts_with (p # ps) (c # cs) = (p = c \<and> starts_with ps cs)"

fun str_contains :: "string \<Rightarrow> string \<Rightarrow> bool" where
  "str_contains p [] = (p = [])"
| "str_contains p (c # cs) = (starts_with p (c # cs) \<or> str_contains p cs)"

text \<open>\<^verbatim>\<open>s.replace('_', ' ')\<close>\<close>

definition replace_underscores :: "string \<Rightarrow> string" where
  "replace_underscores s = map (\<lambda>c. if c = CHR ''_'' then CHR '' '' else c) s"

text \<open>
  \<^verbatim>\<open>s.title()\<close>: a cased character that follows a cased character is lower-cased, every
  other cased character is upper-cased. The flag is "the previous character is cased".
\<close>

fun title_from :: "bool \<Rightarrow> string \<Rightarrow> string" where
  "title_from previous_is_cased [] = []"
| "title_from previous_is_cased (c # cs) =
     (if previous_is_cased then lower_char c else upper_char c) # title_from (is_cased c) cs"

definition title :: "string \<Rightarrow> string" where
  "title s = title_from False s"

text \<open>\<^verbatim>\<open>str(n)\<close> for an integer, and the format \<^verbatim>\<open>{n:02d}\<close>.\<close>

definition digit_char :: "nat \<Rightarrow> char" where
  "digit_char d = ''0123456789'' ! d"

fun str_nat :: "nat \<Rightarrow> string" where
  "str_nat n = (if n < 10 then [digit_char n] else str_nat (n div 10) @ [digit_char (n mod 10)])"

declare str_nat.simps [simp del]

definition str_int :: "int \<Rightarrow> string" where
  "str_int i = (if i < 0 then CHR ''-'' # str_nat (nat (- i)) else str_nat (nat i))"

definition format_02d :: "int \<Rightarrow> string" where
  "format_02d i = (let s = str_int i in replicate (2 - length s) CHR ''0'' @ s)"

section \<open>The store\<close>

text \<open>
  The SQLite connection is modelled by its contents. A cell holds one of SQLite's five
  storage classes; \<open>VReal\<close> carries the exact real number (floating-point rounding,
  infinities and NaN are not modelled). A table is its declared column names (in stored
  order) and its rows. \<open>Closed\<close> is a connection on which every statement raises.
\<close>

datatype val = VNull | VInt int | VReal real | VText string | VBlob string

record table =
  columns :: "string list"
  rows :: "val list list"

datatype conn = Closed | Open "(string \<times> table) list"

text \<open>
  Exceptions are values. \<open>NoDataFound\<close> is not an exception: it stands for the literal
  result \<^verbatim>\<open>{'error': 'No data found'}\<close>. A tagged failure \<^verbatim>\<open>{'error': str(e)}\<close> is
  modelled as \<open>Inl e\<close>.
\<close>

datatype error =
    ProgrammingError string
  | OperationalError string
  | ValueError string
  | TypeError string
  | IndexError string
  | KeyError string
  | DatabaseError string
  | OutOfBoundsDatetime
  | OtherException string
  | NoDataFound

text \<open>SQLite compares identifiers without regard to ASCII case.\<close>

definition same_ident :: "string \<Rightarrow> string \<Rightarrow> bool" where
  "same_ident a b = (lower a = lower b)"

definition find_table :: "(string \<times> table) list \<Rightarrow> string \<Rightarrow> table option" where
  "find_table tables name = map_option snd (find (\<lambda>nt. same_ident (fst nt) name) tables)"

text \<open>
  A row is read through the column list of its table: the result has one cell per
  column, and a cell the stored row does not have reads as NULL.
\<close>

definition cell :: "val list \<Rightarrow> nat \<Rightarrow> val" where
  "cell r j = (if j < length r then r ! j else VNull)"

definition read_row :: "table \<Rightarrow> val list \<Rightarrow> val list" where
  "read_row t r = map (cell r) [0..<length (columns t)]"

text \<open>\<^verbatim>\<open>SELECT name FROM sqlite_master WHERE type='table'\<close>\<close>

fun sqlite_master_names :: "conn \<Rightarrow> error + string list" where
  "sqlite_master_names Closed = Inl (ProgrammingError ''Cannot operate on a closed database.'')"
| "sqlite_master_names (Open tables) = Inr (map fst tables)"

text \<open>\<^verbatim>\<open>PRAGMA table_info([name])\<close>, column names only: no rows for an unknown table.\<close>

fun pragma_table_info :: "conn \<Rightarrow> string \<Rightarrow> error + string list" where
  "pragma_table_info Closed name = Inl (ProgrammingError ''Cannot operate on a closed database.'')"
| "pragma_table_info (Open tables) name =
     (case find_table tables name of None \<Rightarrow> Inr [] | Some t \<Rightarrow> Inr (columns t))"

text \<open>\<^verbatim>\<open>SELECT COUNT(*) FROM [name]\<close>\<close>

fun select_count :: "conn \<Rightarrow> string \<Rightarrow> error + nat" where
  "select_count Closed name = Inl (ProgrammingError ''Cannot operate on a closed database.'')"
| "select_count (Open tables) name =
     (case find_table tables name of
        None \<Rightarrow> Inl (OperationalError (''no such table: '' @ name))
      | Some t \<Rightarrow> Inr (length (rows t)))"

text \<open>\<^verbatim>\<open>SELECT * FROM [name] LIMIT n\<close>\<close>

fun select_star_limit :: "conn \<Rightarrow> string \<Rightarrow> nat \<Rightarrow> error + val list list" where
  "select_star_limit Closed name n = Inl (ProgrammingError ''Cannot operate on a closed database.'')"
| "select_star_limit (Open tables) name n =
     (case find_table tables name of
        None \<Rightarrow> Inl (OperationalError (''no such table: '' @ name))
      | Some t \<Rightarrow> Inr (map (read_row t) (take n (rows t))))"

section \<open>Time Column Resolver\<close>

definition time_patterns :: "string list" where
  "time_patterns = [''TimeUS'', ''timestamp'', ''time_boot_ms'', ''time'', ''Time'']"

text \<open>The test \<^verbatim>\<open>pattern.lower() in col.lower()\<close>.\<close>

definition pattern_in_col :: "string \<Rightarrow> string \<Rightarrow> bool" where
  "pattern_in_col pattern col = str_contains (lower pattern) (lower col)"

text \<open>The inner loop \<^verbatim>\<open>for col in columns\<close> for one pattern.\<close>

fun first_col_with :: "string \<Rightarrow> string list \<Rightarrow> string option" where
  "first_col_with pattern [] = None"
| "first_col_with pattern (col # cols) =
     (if pattern_in_col pattern col then Some col else first_col_with pattern cols)"

text \<open>The outer loop \<^verbatim>\<open>for pattern in time_patterns\<close>; falling through returns None.\<close>

fun scan_patterns :: "string list \<Rightarrow> string list \<Rightarrow> string option" where
  "scan_patterns [] cols = None"
| "scan_patterns (pattern # patterns) cols =
     (case first_col_with pattern cols of
        Some col \<Rightarrow> Some col
      | None \<Rightarrow> scan_patterns patterns cols)"

text \<open>Any exception of the introspection is caught and None is returned.\<close>

definition get_time_column :: "conn \<Rightarrow> string \<Rightarrow> string option" where
  "get_time_column c table_name =
     (case pragma_table_info c table_name of
        Inl e \<Rightarrow> None
      | Inr cols \<Rightarrow> scan_patterns time_patterns cols)"

section \<open>Semantic Annotator\<close>

text \<open>The pattern dictionary, in the order of the dict literal (its keys are distinct).\<close>

definition patterns :: "(string \<times> string \<times> string) list" where
  "patterns = [
     (''roll'', ''degrees'', ''Roll angle''),
     (''pitch'', ''degrees'', ''Pitch angle''),
     (''yaw'', ''degrees'', ''Yaw angle''),
     (''rollspeed'', ''deg/s'', ''Roll angular velocity''),
     (''pitchspeed'', ''deg/s'', ''Pitch angular velocity''),
     (''yawspeed'', ''deg/s'', ''Yaw angular velocity''),
     (''lat'', ''degrees'', ''Latitude''),
     (''lng'', ''degrees'', ''Longitude''),
     (''lon'', ''degrees'', ''Longitude''),
     (''alt'', ''meters'', ''Altitude''),
     (''relalt'', ''meters'', ''Relative altitude''),
     (''vx'', ''m/s'', ''Velocity X''),
     (''vy'', ''m/s'', ''Velocity Y''),
     (''vz'', ''m/s'', ''Velocity Z''),
     (''vel'', ''m/s'', ''Velocity''),
     (''speed'', ''m/s'', ''Speed''),
     (''groundspeed'', ''m/s'', ''Ground speed''),
     (''airspeed'', ''m/s'', ''Air speed''),
     (''accx'', ''m/s'' @ [CHR 0xC2, CHR 0xB2], ''Acceleration X''),
     (''accy'', ''m/s'' @ [CHR 0xC2, CHR 0xB2], ''Acceleration Y''),
     (''accz'', ''m/s'' @ [CHR 0xC2, CHR 0xB2], ''Acceleration Z''),
     (''acc'', ''m/s'' @ [CHR 0xC2, CHR 0xB2], ''Acceleration''),
     (''gyrx'', ''deg/s'', ''Angular rate X''),
     (''gyry'', ''deg/s'', ''Angular rate Y''),
     (''gyrz'', ''deg/s'', ''Angular rate Z''),
     (''p'', ''deg/s'', ''Roll rate''),
     (''q'', ''deg/s'', ''Pitch rate''),
     (''r'', ''deg/s'', ''Yaw rate''),
     (''volt'', ''V'', ''Voltage''),
     (''curr'', ''A'', ''Current''),
     (''bat'', ''V'', ''Battery voltage''),
     (''power'', ''W'', ''Power''),
     (''press'', ''Pa'', ''Pressure''),
     (''baro'', ''m'', ''Barometric altitude''),
     (''temp'', [CHR 0xC2, CHR 0xB0] @ ''C'', ''Temperature''),
     (''thr'', ''%'', ''Throttle''),
     (''throttle'', ''%'', ''Throttle''),
     (''rud'', ''%'', ''Rudder''),
     (''ele'', ''%'', ''Elevator''),
     (''ail'', ''%'', ''Aileron''),
     (''timeus'', [CHR 0xCE, CHR 0xBC] @ ''s'', ''Time (microseconds)''),
     (''timestamp'', ''s'', ''Timestamp''),
     (''time'', ''s'', ''Time'')]"

text \<open>The loop \<^verbatim>\<open>for pattern, (unit, desc) in patterns.items()\<close> with its fallback.\<close>

fun match_patterns :: "(string \<times> string \<times> string) list \<Rightarrow> string \<Rightarrow> string \<Rightarrow> string \<times> string" where
  "match_patterns [] col_lower column_name = ('''', title (replace_underscores column_name))"
| "match_patterns ((pattern, unit, desc) # ps) col_lower column_name =
     (if str_contains pattern col_lower then (unit, desc)
      else match_patterns ps col_lower column_name)"

definition infer_units_and_descriptions :: "string \<Rightarrow> string \<times> string" where
  "infer_units_and_descriptions column_name =
     match_patterns patterns (lower column_name) column_name"

section \<open>Library functions taken as parameters\<close>

text \<open>
  What the code delegates to Python and pandas on inputs whose treatment is not fixed by
  this repository is a parameter of the model: \<open>py_float\<close> is \<^verbatim>\<open>float(s)\<close> on a string
  (\<open>None\<close> when it raises ValueError), \<open>py_str_float\<close> is \<^verbatim>\<open>str(x)\<close> on a float (\<open>None\<close>
  is NaN), \<open>py_str_bytes\<close> is \<^verbatim>\<open>str(b)\<close> on a bytes object, \<open>pd_to_datetime_object\<close> is
  \<^verbatim>\<open>pd.to_datetime(series, errors='coerce')\<close> on a series of dtype object, and
  \<open>py_str_datetime\<close> is the string \<^verbatim>\<open>astype(str)\<close> gives a datetime.
\<close>

datatype datetime = NaT | Timestamp real

record pylib =
  py_float :: "string \<Rightarrow> real option"
  py_str_float :: "real option \<Rightarrow> string"
  py_str_bytes :: "string \<Rightarrow> string"
  pd_to_datetime_object :: "val list \<Rightarrow> datetime list"
  py_str_datetime :: "datetime \<Rightarrow> string"

section \<open>Numeric Column Classifier\<close>

text \<open>
  \<^verbatim>\<open>values = [row[i] for row in rows if row[i] is not None]\<close>; indexing a row that has
  no cell \<open>i\<close> raises IndexError.
\<close>

fun column_values :: "val list list \<Rightarrow> nat \<Rightarrow> error + val list" where
  "column_values [] i = Inr []"
| "column_values (row # rest) i =
     (if i < length row
      then (case column_values rest i of
              Inl e \<Rightarrow> Inl e
            | Inr vs \<Rightarrow> Inr (if row ! i \<noteq> VNull then row ! i # vs else vs))
      else Inl (IndexError ''tuple index out of range''))"

text \<open>
  The body of the \<^verbatim>\<open>try\<close> for one value: an int or a float is converted, a string is
  parsed (ValueError: nothing is appended), any other value appends nothing.
\<close>

fun to_numeric :: "pylib \<Rightarrow> val \<Rightarrow> real option" where
  "to_numeric lib (VInt n) = Some (of_int n)"
| "to_numeric lib (VReal x) = Some x"
| "to_numeric lib (VText s) = py_float lib s"
| "to_numeric lib VNull = None"
| "to_numeric lib (VBlob b) = None"

fun collect_numeric :: "pylib \<Rightarrow> val list \<Rightarrow> real list" where
  "collect_numeric lib [] = []"
| "collect_numeric lib (v # vs) =
     (case to_numeric lib v of
        Some x \<Rightarrow> x # collect_numeric lib vs
      | None \<Rightarrow> collect_numeric lib vs)"

definition mean :: "real list \<Rightarrow> real" where
  "mean xs = sum_list xs / of_nat (length xs)"

text \<open>\<^verbatim>\<open>np.var\<close>: the population variance, the mean of the squared deviations.\<close>

definition np_var :: "real list \<Rightarrow> real" where
  "np_var xs = mean (map (\<lambda>x. (x - mean xs)\<^sup>2) xs)"

text \<open>
  The decision taken for one column in the loop body: True when the column name is
  appended. The product \<^verbatim>\<open>len(values) * 0.8\<close> is taken exactly.
\<close>

definition column_is_numeric :: "pylib \<Rightarrow> val list \<Rightarrow> bool" where
  "column_is_numeric lib values =
     (if length values < 5 then False
      else let numeric_values = collect_numeric lib values in
        if real (length values) * (8 / 10) \<le> real (length numeric_values)
        then (if 1 < card (set numeric_values)
              then (let variance = np_var numeric_values in 0 < variance)
              else False)
        else False)"

text \<open>
  The loop \<^verbatim>\<open>for i, col_name in enumerate(columns)\<close>. An exception leaves the loop and the
  names collected so far are returned.
\<close>

fun analyze_columns :: "pylib \<Rightarrow> val list list \<Rightarrow> (nat \<times> string) list \<Rightarrow> string list \<Rightarrow> string list" where
  "analyze_columns lib rws [] numeric_columns = numeric_columns"
| "analyze_columns lib rws ((i, col_name) # rest) numeric_columns =
     (case column_values rws i of
        Inl e \<Rightarrow> numeric_columns
      | Inr values \<Rightarrow>
          analyze_columns lib rws rest
            (if column_is_numeric lib values then numeric_columns @ [col_name]
             else numeric_columns))"

definition detect_numeric_columns :: "pylib \<Rightarrow> conn \<Rightarrow> string \<Rightarrow> nat \<Rightarrow> string list" where
  "detect_numeric_columns lib c table_name sample_size =
     (case select_star_limit c table_name sample_size of
        Inl e \<Rightarrow> []
      | Inr rws \<Rightarrow>
          if rws = [] then []
          else (case pragma_table_info c table_name of
                  Inl e \<Rightarrow> []
                | Inr cols \<Rightarrow> analyze_columns lib rws (enumerate 0 cols) []))"

text \<open>
  The classifier in the words of the specification: \<open>V\<close> is the list of non-null sampled
  values of the column, \<open>N\<close> the coercible ones.
\<close>

definition spec_qualifies :: "pylib \<Rightarrow> val list \<Rightarrow> bool" where
  "spec_qualifies lib V =
     (let N = collect_numeric lib V in
        5 \<le> length V \<and> 4 * length V \<le> 5 * length N \<and> 1 < card (set N) \<and> 0 < np_var N)"

text \<open>The non-null values a column has in the sample of a table.\<close>

definition sampled_values :: "table \<Rightarrow> nat \<Rightarrow> nat \<Rightarrow> val list" where
  "sampled_values t sample_size i =
     filter (\<lambda>v. v \<noteq> VNull) (map (\<lambda>r. cell r i) (take sample_size (rows t)))"

section \<open>Schema Catalog\<close>

text \<open>The declared column types are not modelled.\<close>

record table_info =
  info_row_count :: nat
  info_columns :: "string list"

text \<open>
  The loop over the table names. A dict assignment is \<open>AList.update\<close>: an existing key
  keeps its position, a new one is appended. An exception ends the loop and the schema
  built so far is returned.
\<close>

fun schema_loop :: "conn \<Rightarrow> string list \<Rightarrow> (string \<times> table_info) list \<Rightarrow> (string \<times> table_info) list" where
  "schema_loop c [] schema = schema"
| "schema_loop c (table_name # tables) schema =
     (case select_count c table_name of
        Inl e \<Rightarrow> schema
      | Inr n \<Rightarrow>
          (case pragma_table_info c table_name of
             Inl e \<Rightarrow> schema
           | Inr cols \<Rightarrow>
               schema_loop c tables
                 (AList.update table_name \<lparr>info_row_count = n, info_columns = cols\<rparr> schema)))"

definition get_database_schema :: "conn \<Rightarrow> (string \<times> table_info) list" where
  "get_database_schema c =
     (case sqlite_master_names c of
        Inl e \<Rightarrow> []
      | Inr tables \<Rightarrow> schema_loop c tables [])"

section \<open>Attribute Catalog Builder\<close>

record descriptor =
  time_col :: string
  attributes :: "string list"
  units :: "(string \<times> string) list"
  descriptions :: "(string \<times> string) list"
  row_count :: nat

text \<open>The loop \<^verbatim>\<open>for attr in attributes\<close> filling the two dicts.\<close>

fun annotate_loop :: "string list \<Rightarrow> (string \<times> string) list \<times> (string \<times> string) list \<Rightarrow>
    (string \<times> string) list \<times> (string \<times> string) list" where
  "annotate_loop [] (us, ds) = (us, ds)"
| "annotate_loop (attr # rest) (us, ds) =
     (case infer_units_and_descriptions attr of
        (unit, desc) \<Rightarrow> annotate_loop rest (AList.update attr unit us, AList.update attr desc ds))"

text \<open>
  The body of the loop over the schema for one table: \<open>None\<close> is \<^verbatim>\<open>continue\<close>, otherwise
  the descriptor stored under the table name. \<^verbatim>\<open>not time_col\<close> holds for None and for the
  empty string.
\<close>

definition describe_table :: "pylib \<Rightarrow> conn \<Rightarrow> string \<Rightarrow> table_info \<Rightarrow> descriptor option" where
  "describe_table lib c table_name info =
     (if info_row_count info = 0 then None
      else case get_time_column c table_name of
        None \<Rightarrow> None
      | Some tc \<Rightarrow>
          if tc = [] then None
          else let numeric_cols = detect_numeric_columns lib c table_name 100 in
            if numeric_cols = [] then None
            else let attrs = filter (\<lambda>col. col \<noteq> tc) numeric_cols in
              if attrs = [] then None
              else case annotate_loop attrs ([], []) of
                (us, ds) \<Rightarrow>
                  Some \<lparr>time_col = tc, attributes = attrs, units = us, descriptions = ds,
                        row_count = info_row_count info\<rparr>)"

fun attributes_loop :: "pylib \<Rightarrow> conn \<Rightarrow> (string \<times> table_info) list \<Rightarrow> (string \<times> descriptor) list \<Rightarrow>
    (string \<times> descriptor) list" where
  "attributes_loop lib c [] dynamic_attrs = dynamic_attrs"
| "attributes_loop lib c ((table_name, info) # rest) dynamic_attrs =
     attributes_loop lib c rest
       (case describe_table lib c table_name info of
          None \<Rightarrow> dynamic_attrs
        | Some d \<Rightarrow> AList.update table_name d dynamic_attrs)"

definition get_all_dynamic_attributes :: "pylib \<Rightarrow> conn \<Rightarrow> (string \<times> descriptor) list" where
  "get_all_dynamic_attributes lib c = attributes_loop lib c (get_database_schema c) []"

section \<open>Time Normalizer\<close>

text \<open>
  \<open>Timestamp s\<close> is the instant \<open>s\<close> seconds after the epoch, \<open>NaT\<close> the null datetime. The
  nanosecond resolution of pandas is not modelled; the representable range is the one of
  a signed 64-bit count of nanoseconds.
\<close>

definition in_datetime_bounds :: "real \<Rightarrow> bool" where
  "in_datetime_bounds s = (\<bar>s * 10 ^ 9\<bar> < 2 ^ 63)"

text \<open>Python's \<^verbatim>\<open>//\<close> and \<^verbatim>\<open>%\<close> on floats, and \<^verbatim>\<open>int(x)\<close>, which truncates towards zero.\<close>

definition float_floordiv :: "real \<Rightarrow> real \<Rightarrow> real" where
  "float_floordiv x y = of_int \<lfloor>x / y\<rfloor>"

definition float_mod :: "real \<Rightarrow> real \<Rightarrow> real" where
  "float_mod x y = x - y * of_int \<lfloor>x / y\<rfloor>"

definition py_int :: "real \<Rightarrow> int" where
  "py_int x = (if 0 \<le> x then \<lfloor>x\<rfloor> else \<lceil>x\<rceil>)"

definition format_time :: "real \<Rightarrow> string" where
  "format_time sec =
     (let minutes = py_int (float_floordiv sec 60);
          seconds_remainder = py_int (float_mod sec 60)
      in str_int minutes @ '':'' @ format_02d seconds_remainder)"

fun is_number :: "val \<Rightarrow> bool" where
  "is_number (VInt n) = True"
| "is_number (VReal x) = True"
| "is_number v = False"

fun number_of :: "val \<Rightarrow> real option" where
  "number_of (VInt n) = Some (of_int n)"
| "number_of (VReal x) = Some x"
| "number_of v = None"

text \<open>
  The dtype pandas infers for a column read from SQL is numeric (int64 or float64, a
  NULL being NaN) when every cell is a number or NULL and some cell is a number;
  otherwise it is object.
\<close>

definition numeric_dtype :: "val list \<Rightarrow> bool" where
  "numeric_dtype vs = (list_all (\<lambda>v. is_number v \<or> v = VNull) vs \<and> list_ex is_number vs)"

text \<open>
  \<^verbatim>\<open>series / d\<close>: a missing value (NULL) gives NaN (\<open>None\<close>), whatever the dtype; a string
  or bytes raises TypeError.
\<close>

definition divide_series :: "val list \<Rightarrow> real \<Rightarrow> error + real option list" where
  "divide_series vs d =
     (if list_all (\<lambda>v. is_number v \<or> v = VNull) vs
      then Inr (map (\<lambda>v. map_option (\<lambda>x. x / d) (number_of v)) vs)
      else Inl (TypeError ''unsupported operand type(s) for /''))"

text \<open>The results of a list of computations, or the first exception.\<close>

fun all_results :: "(error + 'a) list \<Rightarrow> error + 'a list" where
  "all_results [] = Inr []"
| "all_results (r # rs) =
     (case r of
        Inl e \<Rightarrow> Inl e
      | Inr x \<Rightarrow> (case all_results rs of Inl e \<Rightarrow> Inl e | Inr xs \<Rightarrow> Inr (x # xs)))"

text \<open>\<^verbatim>\<open>pd.to_datetime(seconds, unit='s')\<close> on one element: NaN gives NaT.\<close>

fun to_datetime_unit_s :: "real option \<Rightarrow> error + datetime" where
  "to_datetime_unit_s None = Inr NaT"
| "to_datetime_unit_s (Some s) =
     (if in_datetime_bounds s then Inr (Timestamp s) else Inl OutOfBoundsDatetime)"

text \<open>\<^verbatim>\<open>seconds.apply(format_time)\<close> on one element: \<^verbatim>\<open>int\<close> of NaN raises ValueError.\<close>

fun apply_format_time :: "real option \<Rightarrow> error + string" where
  "apply_format_time None = Inl (ValueError ''cannot convert float NaN to integer'')"
| "apply_format_time (Some sec) = Inr (format_time sec)"

definition convert_timeus_to_datetime_and_format :: "val list \<Rightarrow> error + datetime list \<times> string list" where
  "convert_timeus_to_datetime_and_format timeus_values =
     (case divide_series timeus_values 1000000 of
        Inl e \<Rightarrow> Inl e
      | Inr seconds \<Rightarrow>
          (case all_results (map to_datetime_unit_s seconds) of
             Inl e \<Rightarrow> Inl e
           | Inr datetime_series \<Rightarrow>
               (case all_results (map apply_format_time seconds) of
                  Inl e \<Rightarrow> Inl e
                | Inr formatted_series \<Rightarrow> Inr (datetime_series, formatted_series))))"

text \<open>
  \<^verbatim>\<open>pd.to_datetime(series, errors='coerce')\<close>: a number is a count of nanoseconds after the
  epoch, NaN and a value out of range give NaT.
\<close>

definition to_datetime_coerce :: "pylib \<Rightarrow> val list \<Rightarrow> datetime list" where
  "to_datetime_coerce lib vs =
     (if numeric_dtype vs
      then map (\<lambda>v. case number_of v of
                      None \<Rightarrow> NaT
                    | Some x \<Rightarrow> if in_datetime_bounds (x / 10 ^ 9) then Timestamp (x / 10 ^ 9) else NaT) vs
      else pd_to_datetime_object lib vs)"

text \<open>\<^verbatim>\<open>series.astype(str)\<close>, by dtype: int64, float64, object.\<close>

fun is_int :: "val \<Rightarrow> bool" where
  "is_int (VInt n) = True"
| "is_int v = False"

fun str_object :: "pylib \<Rightarrow> val \<Rightarrow> string" where
  "str_object lib VNull = ''None''"
| "str_object lib (VInt n) = str_int n"
| "str_object lib (VReal x) = py_str_float lib (Some x)"
| "str_object lib (VText s) = s"
| "str_object lib (VBlob b) = py_str_bytes lib b"

definition astype_str :: "pylib \<Rightarrow> val list \<Rightarrow> string list" where
  "astype_str lib vs =
     (if list_all is_int vs then map (str_object lib) vs
      else if numeric_dtype vs then map (\<lambda>v. py_str_float lib (number_of v)) vs
      else map (str_object lib) vs)"

section \<open>Query and Statistics Engine\<close>

text \<open>
  A DataFrame is its columns in order, each a label and its values; labels may repeat.
  \<open>df_get\<close> is \<^verbatim>\<open>df[name]\<close>: the columns carrying the label (none: KeyError, one: a
  Series, several: a DataFrame).
\<close>

type_synonym dataframe = "(string \<times> val list) list"

definition df_empty :: "dataframe \<Rightarrow> bool" where
  "df_empty df = list_all (\<lambda>col. snd col = []) df"

definition df_get :: "(string \<times> 'a) list \<Rightarrow> string \<Rightarrow> 'a list" where
  "df_get df name = map snd (filter (\<lambda>col. fst col = name) df)"

text \<open>
  The text of the statement: \<^verbatim>\<open>SELECT [c1], [c2], ... FROM [name]\<close>, followed by
  \<^verbatim>\<open>LIMIT n\<close> when \<^verbatim>\<open>if limit:\<close> holds (it is false for None and for 0).
\<close>

definition bracketed :: "string \<Rightarrow> string" where
  "bracketed s = ''['' @ s @ '']''"

fun join_comma :: "string list \<Rightarrow> string" where
  "join_comma [] = []"
| "join_comma [s] = s"
| "join_comma (s # t # ss) = s @ '', '' @ join_comma (t # ss)"

definition select_statement :: "string \<Rightarrow> string list \<Rightarrow> nat option \<Rightarrow> string" where
  "select_statement name cols limit =
     ''SELECT '' @ join_comma (map bracketed cols) @ '' FROM '' @ bracketed name @
     (case limit of
        None \<Rightarrow> []
      | Some n \<Rightarrow> if n = 0 then [] else '' LIMIT '' @ str_nat n)"

text \<open>
  \<^verbatim>\<open>pd.read_sql_query\<close> wraps an exception of the execution in a DatabaseError whose
  message quotes the statement.
\<close>

definition execution_failed :: "string \<Rightarrow> string \<Rightarrow> error" where
  "execution_failed sql msg =
     DatabaseError (''Execution failed on sql '' @ [CHR 0x27] @ sql @ [CHR 0x27] @ '': '' @ msg)"

text \<open>
  The resolution of a requested column. A declared column is found without regard to
  case and the result column carries the declared name. A name that is no declared
  column but one of \<^verbatim>\<open>rowid\<close>, \<^verbatim>\<open>oid\<close>, \<^verbatim>\<open>_rowid_\<close> is the implicit row id, under the
  label \<^verbatim>\<open>rowid\<close>. The row ids are those of a table written once, as the loader of this
  repository does: the position of the row, from 1. Identifiers are assumed not to
  contain a closing bracket, and the table is assumed not to be one of SQLite's own
  schema tables.
\<close>

datatype column_ref = Declared nat string | Rowid

definition is_rowid_name :: "string \<Rightarrow> bool" where
  "is_rowid_name name = (lower name \<in> set [''rowid'', ''oid'', ''_rowid_''])"

definition resolve_column :: "string list \<Rightarrow> string \<Rightarrow> column_ref option" where
  "resolve_column cols name =
     (case find (\<lambda>jc. same_ident (snd jc) name) (enumerate 0 cols) of
        Some jc \<Rightarrow> Some (Declared (fst jc) (snd jc))
      | None \<Rightarrow> if is_rowid_name name then Some Rowid else None)"

fun resolve_columns :: "string list \<Rightarrow> string list \<Rightarrow> string + column_ref list" where
  "resolve_columns cols [] = Inr []"
| "resolve_columns cols (name # names) =
     (case resolve_column cols name of
        None \<Rightarrow> Inl (''no such column: '' @ name)
      | Some ref \<Rightarrow>
          (case resolve_columns cols names of
             Inl msg \<Rightarrow> Inl msg
           | Inr refs \<Rightarrow> Inr (ref # refs)))"

fun column_label :: "column_ref \<Rightarrow> string" where
  "column_label (Declared j declared) = declared"
| "column_label Rowid = ''rowid''"

fun column_value :: "column_ref \<Rightarrow> nat \<times> val list \<Rightarrow> val" where
  "column_value (Declared j declared) (rowid, r) = cell r j"
| "column_value Rowid (rowid, r) = VInt (int rowid)"

fun apply_limit :: "nat option \<Rightarrow> 'a list \<Rightarrow> 'a list" where
  "apply_limit None xs = xs"
| "apply_limit (Some n) xs = (if n = 0 then xs else take n xs)"

fun select_columns :: "conn \<Rightarrow> string \<Rightarrow> string list \<Rightarrow> nat option \<Rightarrow> error + dataframe" where
  "select_columns Closed name cols limit =
     Inl (ProgrammingError ''Cannot operate on a closed database.'')"
| "select_columns (Open tables) name cols limit =
     (if cols = []
      then Inl (execution_failed (select_statement name cols limit)
                  (''near '' @ [CHR 0x22] @ ''FROM'' @ [CHR 0x22] @ '': syntax error''))
      else case find_table tables name of
        None \<Rightarrow>
          Inl (execution_failed (select_statement name cols limit) (''no such table: '' @ name))
      | Some t \<Rightarrow>
          (case resolve_columns (columns t) cols of
             Inl msg \<Rightarrow> Inl (execution_failed (select_statement name cols limit) msg)
           | Inr refs \<Rightarrow>
               Inr (map (\<lambda>ref. (column_label ref,
                                 map (column_value ref) (apply_limit limit (enumerate 1 (rows t)))))
                      refs)))"

text \<open>
  The frame of the Chart Result holds stored values and, after the assignments of the
  code, datetimes; a string is the stored value \<open>VText\<close>. \<open>df_assign\<close> is
  \<^verbatim>\<open>df[label] = values\<close>: every column carrying the label is overwritten, and a new
  column is appended when there is none.
\<close>

datatype df_value = Value val | Datetime datetime

type_synonym chart_frame = "(string \<times> df_value list) list"

definition lift_frame :: "dataframe \<Rightarrow> chart_frame" where
  "lift_frame df = map (\<lambda>col. (fst col, map Value (snd col))) df"

definition df_assign :: "chart_frame \<Rightarrow> string \<Rightarrow> df_value list \<Rightarrow> chart_frame" where
  "df_assign df label values =
     (if label \<in> set (map fst df)
      then map (\<lambda>col. if fst col = label then (label, values) else col) df
      else df @ [(label, values)])"

definition text_values :: "string list \<Rightarrow> df_value list" where
  "text_values ss = map (\<lambda>s. Value (VText s)) ss"

text \<open>
  \<^verbatim>\<open>astype(str)\<close> on a column of the frame: a column of stored values goes by its dtype,
  a column of datetimes gives the string of each datetime.
\<close>

fun stored :: "df_value \<Rightarrow> val option" where
  "stored (Value v) = Some v"
| "stored (Datetime d) = None"

fun str_df_value :: "pylib \<Rightarrow> df_value \<Rightarrow> string" where
  "str_df_value lib (Value v) = str_object lib v"
| "str_df_value lib (Datetime d) = py_str_datetime lib d"

definition frame_astype_str :: "pylib \<Rightarrow> df_value list \<Rightarrow> string list" where
  "frame_astype_str lib series =
     (case those (map stored series) of
        Some vs \<Rightarrow> astype_str lib vs
      | None \<Rightarrow> map (str_df_value lib) series)"

record chart_result =
  data :: chart_frame
  time_column :: string
  time_formatted_column :: string
  chart_attributes :: "string list"
  message_type :: string

text \<open>
  When the time column is selected more than once, \<^verbatim>\<open>df[time_col]\<close> is a DataFrame and
  \<^verbatim>\<open>pd.to_datetime\<close> raises ValueError (after the division, on the microsecond path).
  On the other path \<^verbatim>\<open>df[time_col]\<close> is read a second time after the assignment of the
  \<^verbatim>\<open>datetime\<close> column, so that a time column of that very name is read converted.
\<close>

definition get_chart_data :: "pylib \<Rightarrow> conn \<Rightarrow> string \<Rightarrow> string list \<Rightarrow> nat option \<Rightarrow> error + chart_result" where
  "get_chart_data lib c msg_type attrs limit =
     (case get_time_column c msg_type of
        None \<Rightarrow> Inl (ValueError (''No time column found for '' @ msg_type))
      | Some tc \<Rightarrow>
          if tc = [] then Inl (ValueError (''No time column found for '' @ msg_type))
          else case select_columns c msg_type (tc # attrs) limit of
            Inl e \<Rightarrow> Inl e
          | Inr df \<Rightarrow>
              if df_empty df then Inl NoDataFound
              else if str_contains ''timeus'' (lower tc)
              then (case df_get df tc of
                      [] \<Rightarrow> Inl (KeyError tc)
                    | [series] \<Rightarrow>
                        (case convert_timeus_to_datetime_and_format series of
                           Inl e \<Rightarrow> Inl e
                         | Inr (datetime_col, formatted_col) \<Rightarrow>
                             Inr \<lparr>data = df_assign
                                          (df_assign (lift_frame df) ''datetime''
                                             (map Datetime datetime_col))
                                          ''time_formatted'' (text_values formatted_col),
                                  time_column = ''datetime'',
                                  time_formatted_column = ''time_formatted'',
                                  chart_attributes = attrs, message_type = msg_type\<rparr>)
                    | series # others \<Rightarrow>
                        (case all_results (map (\<lambda>s. divide_series s 1000000) (series # others)) of
                           Inl e \<Rightarrow> Inl e
                         | Inr seconds \<Rightarrow> Inl (ValueError ''cannot assemble with duplicate keys'')))
              else (case df_get df tc of
                      [] \<Rightarrow> Inl (KeyError tc)
                    | [series] \<Rightarrow>
                        (case df_get (df_assign (lift_frame df) ''datetime''
                                        (map Datetime (to_datetime_coerce lib series))) tc of
                           [] \<Rightarrow> Inl (KeyError tc)
                         | [series_now] \<Rightarrow>
                             Inr \<lparr>data = df_assign
                                          (df_assign (lift_frame df) ''datetime''
                                             (map Datetime (to_datetime_coerce lib series)))
                                          ''time_formatted''
                                          (text_values (frame_astype_str lib series_now)),
                                  time_column = ''datetime'',
                                  time_formatted_column = ''time_formatted'',
                                  chart_attributes = attrs, message_type = msg_type\<rparr>
                         | series_now # others \<Rightarrow>
                             Inl (ValueError ''cannot assemble with duplicate keys''))
                    | series # others \<Rightarrow> Inl (ValueError ''cannot assemble with duplicate keys'')))"

text \<open>
  The statistics of one column: NaN is \<open>None\<close>. The standard deviation is the sample one
  (divisor \<open>n - 1\<close>), NaN for fewer than two values. On a column holding text or bytes
  \<^verbatim>\<open>mean\<close> raises TypeError.
\<close>

record statistics =
  stat_mean :: "real option"
  stat_std :: "real option"
  stat_min :: "real option"
  stat_max :: "real option"
  stat_count :: nat

definition sample_std :: "real list \<Rightarrow> real" where
  "sample_std xs = sqrt (sum_list (map (\<lambda>x. (x - mean xs)\<^sup>2) xs) / real (length xs - 1))"

definition series_statistics :: "val list \<Rightarrow> error + statistics" where
  "series_statistics vs =
     (if list_all (\<lambda>v. is_number v \<or> v = VNull) vs
      then let xs = List.map_filter number_of vs in
        Inr \<lparr>stat_mean = (if xs = [] then None else Some (mean xs)),
             stat_std = (if length xs < 2 then None else Some (sample_std xs)),
             stat_min = (if xs = [] then None else Some (Min (set xs))),
             stat_max = (if xs = [] then None else Some (Max (set xs))),
             stat_count = length xs\<rparr>
      else Inl (TypeError ''Could not convert to numeric''))"

text \<open>
  The loop \<^verbatim>\<open>for attr in attributes\<close>: an attribute that is no label of the frame is
  passed over; a label carried by several columns makes \<^verbatim>\<open>float\<close> raise TypeError.
\<close>

fun statistics_loop :: "dataframe \<Rightarrow> string list \<Rightarrow> (string \<times> statistics) list \<Rightarrow>
    error + (string \<times> statistics) list" where
  "statistics_loop df [] stats = Inr stats"
| "statistics_loop df (attr # rest) stats =
     (case df_get df attr of
        [] \<Rightarrow> statistics_loop df rest stats
      | [series] \<Rightarrow>
          (case series_statistics series of
             Inl e \<Rightarrow> Inl e
           | Inr st \<Rightarrow> statistics_loop df rest (AList.update attr st stats))
      | series # others \<Rightarrow> Inl (TypeError ''cannot convert the series to float''))"

definition calculate_data_statistics :: "conn \<Rightarrow> string \<Rightarrow> string list \<Rightarrow> error + (string \<times> statistics) list" where
  "calculate_data_statistics c msg_type attrs =
     (case select_columns c msg_type attrs None of
        Inl e \<Rightarrow> Inl e
      | Inr df \<Rightarrow> if df_empty df then Inl NoDataFound else statistics_loop df attrs [])"

section \<open>Record Materializer\<close>

text \<open>
  A decoded message: its type, its \<^verbatim>\<open>_fieldnames\<close> attribute when it has one, and the
  result of \<^verbatim>\<open>to_dict()\<close> (\<open>None\<close> when the call raises). The dict is a list of distinct keys
  with their values, in key order.
\<close>

record message =
  get_type :: string
  fieldnames_attr :: "string list option"
  to_dict :: "(string \<times> val) list option"

text \<open>
  \<^verbatim>\<open>pd.DataFrame(records)\<close> on a list of dicts: the columns are the keys of all the
  records in the order in which they are first seen, and a record without a key has a
  missing value there.
\<close>

fun add_keys :: "string list \<Rightarrow> string list \<Rightarrow> string list" where
  "add_keys cols [] = cols"
| "add_keys cols (k # ks) = add_keys (if k \<in> set cols then cols else cols @ [k]) ks"

definition dataframe_columns :: "(string \<times> val) list list \<Rightarrow> string list" where
  "dataframe_columns records = foldl add_keys [] (map (map fst) records)"

definition dataframe_row :: "string list \<Rightarrow> (string \<times> val) list \<Rightarrow> val list" where
  "dataframe_row cols record = map (\<lambda>col. case map_of record col of None \<Rightarrow> VNull | Some v \<Rightarrow> v) cols"

definition dataframe_of_records :: "(string \<times> val) list list \<Rightarrow> table" where
  "dataframe_of_records records =
     \<lparr>columns = dataframe_columns records,
      rows = map (dataframe_row (dataframe_columns records)) records\<rparr>"

text \<open>
  The read loop. \<open>csv\<close> is the content of the CSV file of each message type seen so far
  (its keys are those of \<^verbatim>\<open>message_writers\<close>, the file path standing for the type);
  \<open>message_files\<close> holds the converted records by type. The first message of a type
  writes a header-only file; when it has no \<^verbatim>\<open>_fieldnames\<close>, a failing \<^verbatim>\<open>to_dict()\<close> is
  outside the inner \<^verbatim>\<open>try\<close> and ends the whole call.
\<close>

fun parse_loop :: "message list \<Rightarrow> (string \<times> table) list \<Rightarrow> (string \<times> (string \<times> val) list list) list \<Rightarrow>
    error + (string \<times> table) list \<times> (string \<times> (string \<times> val) list list) list" where
  "parse_loop [] csv message_files = Inr (csv, message_files)"
| "parse_loop (msg # msgs) csv message_files =
     (if get_type msg \<in> set [''BAD_DATA'', ''UNKNOWN''] then parse_loop msgs csv message_files
      else case (if map_of csv (get_type msg) = None
                 then (case (case fieldnames_attr msg of
                               Some names \<Rightarrow> Inr names
                             | None \<Rightarrow>
                                 (case to_dict msg of
                                    None \<Rightarrow> Inl (OtherException ''to_dict'')
                                  | Some d \<Rightarrow> Inr (map fst d))) of
                         Inl e \<Rightarrow> Inl e
                       | Inr fieldnames \<Rightarrow>
                           Inr (AList.update (get_type msg) \<lparr>columns = fieldnames, rows = []\<rparr> csv,
                                AList.update (get_type msg) [] message_files))
                 else Inr (csv, message_files)) of
             Inl e \<Rightarrow> Inl e
           | Inr (csv', message_files') \<Rightarrow>
               (case to_dict msg of
                  None \<Rightarrow> parse_loop msgs csv' message_files'
                | Some msg_dict \<Rightarrow>
                    parse_loop msgs csv'
                      (AList.map_entry (get_type msg) (\<lambda>records. records @ [msg_dict]) message_files')))"

text \<open>The write loop: a type with at least one record has its file overwritten.\<close>

fun write_loop :: "(string \<times> (string \<times> val) list list) list \<Rightarrow> (string \<times> table) list \<Rightarrow> (string \<times> table) list" where
  "write_loop [] csv = csv"
| "write_loop ((t, records) # rest) csv =
     write_loop rest (if records \<noteq> [] then AList.update t (dataframe_of_records records) csv else csv)"

definition parse_all_mavlink_messages_to_csv :: "message list \<Rightarrow> error + (string \<times> table) list" where
  "parse_all_mavlink_messages_to_csv msgs =
     (case parse_loop msgs [] [] of
        Inl e \<Rightarrow> Inl e
      | Inr (csv, message_files) \<Rightarrow> Inr (write_loop message_files csv))"

text \<open>The records of one type that were converted, in the order of their arrival.\<close>

definition converted_records :: "string \<Rightarrow> message list \<Rightarrow> (string \<times> val) list list" where
  "converted_records t msgs = List.map_filter to_dict (filter (\<lambda>msg. get_type msg = t) msgs)"

section \<open>A concrete store\<close>

text \<open>
  A library instance whose string parser accepts nothing, and a store with one table of
  five rows: a microsecond counter, a column with four numbers and one unparsable string,
  a text column and a constant column.
\<close>

definition example_lib :: pylib where
  "example_lib = \<lparr>py_float = (\<lambda>s. None), py_str_float = (\<lambda>x. ''nan''),
     py_str_bytes = (\<lambda>b. b), pd_to_datetime_object = map (\<lambda>v. NaT),
     py_str_datetime = (\<lambda>d. ''NaT'')\<rparr>"

definition example_table :: table where
  "example_table = \<lparr>columns = [''TimeUS'', ''Roll'', ''Mode'', ''Const''],
     rows = [[VInt 1000000, VReal 1, VText ''AUTO'', VInt 7],
             [VInt 2000000, VReal 2, VText ''AUTO'', VInt 7],
             [VInt 3000000, VText ''x'', VText ''AUTO'', VInt 7],
             [VInt 4000000, VReal 3, VText ''RTL'', VInt 7],
             [VInt 5000000, VReal 4, VText ''RTL'', VInt 7]]\<rparr>"

definition example_conn :: conn where
  "example_conn = Open [(''ATT'', example_table)]"

text \<open>
  A store whose table has a boot-relative millisecond time column, one whose table has
  no time column, one with two numeric attributes, and one whose time column is itself
  named \<^verbatim>\<open>datetime\<close>.
\<close>

definition boot_conn :: conn where
  "boot_conn = Open [(''SYS'', \<lparr>columns = [''time_boot_ms'', ''load''],
     rows = [[VInt 1000000, VInt 5], [VInt 2000000, VInt 7]]\<rparr>)]"

definition plain_conn :: conn where
  "plain_conn = Open [(''PARM'', \<lparr>columns = [''Name'', ''Value''],
     rows = [[VText ''x'', VReal 1]]\<rparr>)]"

definition stats_conn :: conn where
  "stats_conn = Open [(''T'', \<lparr>columns = [''a'', ''b''],
     rows = [[VReal 1, VInt 10], [VReal 2, VInt 20], [VReal 3, VInt 30]]\<rparr>)]"

definition stamp_conn :: conn where
  "stamp_conn = Open [(''EV'', \<lparr>columns = [''datetime'', ''code''],
     rows = [[VInt 5000000000, VInt 1]]\<rparr>)]"

text \<open>
  A log of four messages: two of the type \<^verbatim>\<open>ATT\<close>, the second with a field the first
  has not, one of the skipped type \<^verbatim>\<open>BAD_DATA\<close>, and one of the type \<^verbatim>\<open>GPS\<close> whose
  conversion to a dict fails.
\<close>

definition example_log :: "message list" where
  "example_log =
     [\<lparr>get_type = ''ATT'', fieldnames_attr = Some [''x''], to_dict = Some [(''x'', VInt 1)]\<rparr>,
      \<lparr>get_type = ''BAD_DATA'', fieldnames_attr = Some [''data'', ''reason''],
       to_dict = Some [(''data'', VBlob ''zz''), (''reason'', VText ''Bad prefix'')]\<rparr>,
      \<lparr>get_type = ''ATT'', fieldnames_attr = Some [''x''],
       to_dict = Some [(''x'', VInt 2), (''y'', VInt 3)]\<rparr>,
      \<lparr>get_type = ''GPS'', fieldnames_attr = Some [''lat''], to_dict = None\<rparr>]"

section \<open>Properties\<close>

subsection \<open>Strings and pattern matching\<close>

lemma starts_with_iff: "starts_with p s \<longleftrightarrow> (\<exists>suf. s = p @ suf)"
  by (induction p s rule: starts_with.induct) auto

lemma str_contains_iff: "str_contains p s \<longleftrightarrow> (\<exists>pre suf. s = pre @ p @ suf)"
proof (induction s)
  case Nil
  then show ?case by auto
next
  case (Cons c cs)
  show ?case
  proof
    assume "str_contains p (c # cs)"
    then consider "starts_with p (c # cs)" | "str_contains p cs" by auto
    then show "\<exists>pre suf. c # cs = pre @ p @ suf"
    proof cases
      case 1
      then obtain suf where "c # cs = p @ suf" by (auto simp: starts_with_iff)
      then have "c # cs = [] @ p @ suf" by simp
      then show ?thesis by blast
    next
      case 2
      then obtain pre suf where "cs = pre @ p @ suf" using Cons.IH by blast
      then have "c # cs = (c # pre) @ p @ suf" by simp
      then show ?thesis by blast
    qed
  next
    assume "\<exists>pre suf. c # cs = pre @ p @ suf"
    then obtain pre suf where eq: "c # cs = pre @ p @ suf" by blast
    show "str_contains p (c # cs)"
    proof (cases pre)
      case Nil
      with eq have "starts_with p (c # cs)" by (auto simp: starts_with_iff)
      then show ?thesis by simp
    next
      case (Cons a pre')
      with eq have "cs = pre' @ p @ suf" by simp
      then have "str_contains p cs" using Cons.IH by blast
      then show ?thesis by simp
    qed
  qed
qed

lemma first_col_with_find: "first_col_with p cols = find (pattern_in_col p) cols"
  by (induction cols) auto

lemma first_col_with_None:
  "first_col_with p cols = None \<longleftrightarrow> (\<forall>col\<in>set cols. \<not> pattern_in_col p col)"
  by (induction cols) auto

lemma scan_patterns_find:
  "scan_patterns ps cols =
     (case find (\<lambda>p. \<exists>col\<in>set cols. pattern_in_col p col) ps of
        None \<Rightarrow> None
      | Some p \<Rightarrow> find (pattern_in_col p) cols)"
proof (induction ps)
  case Nil
  show ?case by simp
next
  case (Cons p ps)
  show ?case
  proof (cases "first_col_with p cols")
    case None
    then have "\<not> (\<exists>col\<in>set cols. pattern_in_col p col)" by (simp add: first_col_with_None)
    with None Cons show ?thesis by simp
  next
    case (Some col)
    then have "\<exists>col\<in>set cols. pattern_in_col p col"
      using first_col_with_None [of p cols] by auto
    with Some show ?thesis by (simp add: first_col_with_find)
  qed
qed

lemma scan_patterns_None:
  "scan_patterns ps cols = None \<longleftrightarrow> (\<forall>p\<in>set ps. \<forall>col\<in>set cols. \<not> pattern_in_col p col)"
proof (induction ps)
  case Nil
  show ?case by simp
next
  case (Cons p ps)
  show ?case
  proof (cases "first_col_with p cols")
    case None
    then have "\<forall>col\<in>set cols. \<not> pattern_in_col p col" by (simp add: first_col_with_None)
    with None Cons show ?thesis by simp
  next
    case (Some col)
    then have "\<not> (\<forall>col\<in>set cols. \<not> pattern_in_col p col)"
      using first_col_with_None [of p cols] by simp
    with Some show ?thesis by auto
  qed
qed

lemmas string_eval = lower_def is_upper_def is_lower_def is_cased_def pattern_in_col_def
  same_ident_def find_table_def

text \<open>
  Claim C3. The Time Column Resolver walks the fixed pattern list in priority order
  (\<open>TimeUS\<close>, \<open>timestamp\<close>, \<open>time_boot_ms\<close>, then the bare \<open>time\<close> variants) and, for the first
  pattern that some column contains case-insensitively, returns the first such column in
  stored column order; pattern priority outranks column order, so the columns
  \<open>foo_time_boot_ms\<close>, \<open>TimeUS\<close> give \<open>TimeUS\<close>; it returns None exactly when no pattern occurs
  in any column.
\<close>

theorem get_time_column_priority:
  assumes "pragma_table_info c table_name = Inr cols"
  shows "get_time_column c table_name =
           (case find (\<lambda>p. \<exists>col\<in>set cols. pattern_in_col p col) time_patterns of
              None \<Rightarrow> None
            | Some p \<Rightarrow> find (pattern_in_col p) cols)
         \<and> (get_time_column c table_name = None \<longleftrightarrow>
              (\<forall>p\<in>set time_patterns. \<forall>col\<in>set cols. \<not> pattern_in_col p col))
         \<and> (\<forall>p col. pattern_in_col p col \<longleftrightarrow> (\<exists>pre suf. lower col = pre @ lower p @ suf))
         \<and> map lower time_patterns = [''timeus'', ''timestamp'', ''time_boot_ms'', ''time'', ''time'']
         \<and> (cols = [''foo_time_boot_ms'', ''TimeUS''] \<longrightarrow> get_time_column c table_name = Some ''TimeUS'')"
proof -
  have g: "get_time_column c table_name = scan_patterns time_patterns cols"
    using assms by (simp add: get_time_column_def)
  have 1: "get_time_column c table_name =
           (case find (\<lambda>p. \<exists>col\<in>set cols. pattern_in_col p col) time_patterns of
              None \<Rightarrow> None
            | Some p \<Rightarrow> find (pattern_in_col p) cols)"
    unfolding g by (rule scan_patterns_find)
  have 2: "get_time_column c table_name = None \<longleftrightarrow>
              (\<forall>p\<in>set time_patterns. \<forall>col\<in>set cols. \<not> pattern_in_col p col)"
    unfolding g by (rule scan_patterns_None)
  have 3: "\<forall>p col. pattern_in_col p col \<longleftrightarrow> (\<exists>pre suf. lower col = pre @ lower p @ suf)"
    by (simp add: pattern_in_col_def str_contains_iff)
  have 4: "map lower time_patterns = [''timeus'', ''timestamp'', ''time_boot_ms'', ''time'', ''time'']"
    by (simp add: time_patterns_def lower_def is_upper_def)
  have 5: "cols = [''foo_time_boot_ms'', ''TimeUS''] \<longrightarrow> get_time_column c table_name = Some ''TimeUS''"
    unfolding g by (simp add: time_patterns_def string_eval)
  from 1 2 3 4 5 show ?thesis by blast
qed

theorem get_time_column_priority_witness:
  "pragma_table_info (Open [(''GPS'', \<lparr>columns = [''foo_time_boot_ms'', ''TimeUS''], rows = []\<rparr>)]) ''GPS''
     = Inr [''foo_time_boot_ms'', ''TimeUS'']
   \<and> get_time_column (Open [(''GPS'', \<lparr>columns = [''foo_time_boot_ms'', ''TimeUS''], rows = []\<rparr>)]) ''GPS''
     = Some ''TimeUS''"
proof -
  have h: "pragma_table_info (Open [(''GPS'', \<lparr>columns = [''foo_time_boot_ms'', ''TimeUS''], rows = []\<rparr>)]) ''GPS''
     = Inr [''foo_time_boot_ms'', ''TimeUS'']"
    by (simp add: string_eval)
  from get_time_column_priority [OF h] h show ?thesis by blast
qed

lemma match_patterns_first:
  "i < length ps \<Longrightarrow> str_contains (fst (ps ! i)) l \<Longrightarrow>
   \<forall>j<i. \<not> str_contains (fst (ps ! j)) l \<Longrightarrow>
   match_patterns ps l name = snd (ps ! i)"
proof (induction ps l name arbitrary: i rule: match_patterns.induct)
  case (1 l name)
  then show ?case by simp
next
  case (2 pattern unit desc ps l name)
  show ?case
  proof (cases i)
    case 0
    with 2 show ?thesis by simp
  next
    case (Suc k)
    with 2 have "\<not> str_contains pattern l" by auto
    moreover have "match_patterns ps l name = snd (ps ! k)"
    proof (rule "2.IH")
      show "\<not> str_contains pattern l" using \<open>\<not> str_contains pattern l\<close> .
      show "k < length ps" using 2 Suc by simp
      show "str_contains (fst (ps ! k)) l" using 2 Suc by simp
      show "\<forall>j<k. \<not> str_contains (fst (ps ! j)) l"
      proof (intro allI impI)
        fix j assume "j < k"
        then have "Suc j < i" using Suc by simp
        with 2 have "\<not> str_contains (fst (((pattern, unit, desc) # ps) ! Suc j)) l" by blast
        then show "\<not> str_contains (fst (ps ! j)) l" by simp
      qed
    qed
    ultimately show ?thesis using Suc by simp
  qed
qed

lemma match_patterns_none:
  "\<forall>p\<in>set ps. \<not> str_contains (fst p) l \<Longrightarrow>
   match_patterns ps l name = ('''', title (replace_underscores name))"
  by (induction ps l name rule: match_patterns.induct) auto

text \<open>
  Claim C9. The Semantic Annotator lower-cases the column name and returns the unit and
  description of the first pattern, in the fixed order of the table, that occurs anywhere
  in the lowered name, so that an earlier pattern shadows a later one (\<open>rollspeed\<close> is
  annotated by \<open>roll\<close>, \<open>timestamp\<close> by the one-letter pattern \<open>p\<close>); when no pattern occurs
  the result is the empty unit and the name with underscores replaced by spaces and
  title-cased. Being a function, it returns exactly one pair for every name.
\<close>

theorem infer_units_first_match:
  "(\<forall>i<length patterns.
       str_contains (fst (patterns ! i)) (lower column_name) \<and>
       (\<forall>j<i. \<not> str_contains (fst (patterns ! j)) (lower column_name)) \<longrightarrow>
       infer_units_and_descriptions column_name = snd (patterns ! i))
   \<and> ((\<forall>p\<in>set patterns. \<not> str_contains (fst p) (lower column_name)) \<longrightarrow>
       infer_units_and_descriptions column_name = ('''', title (replace_underscores column_name)))
   \<and> (\<forall>p. str_contains p (lower column_name) \<longleftrightarrow> (\<exists>pre suf. lower column_name = pre @ p @ suf))
   \<and> infer_units_and_descriptions ''rollspeed'' = (''degrees'', ''Roll angle'')
   \<and> infer_units_and_descriptions ''timestamp'' = (''deg/s'', ''Roll rate'')
   \<and> infer_units_and_descriptions ''my_ID2x'' = ('''', ''My Id2X'')"
proof -
  have 1: "\<forall>i<length patterns.
       str_contains (fst (patterns ! i)) (lower column_name) \<and>
       (\<forall>j<i. \<not> str_contains (fst (patterns ! j)) (lower column_name)) \<longrightarrow>
       infer_units_and_descriptions column_name = snd (patterns ! i)"
    unfolding infer_units_and_descriptions_def using match_patterns_first by blast
  have 2: "(\<forall>p\<in>set patterns. \<not> str_contains (fst p) (lower column_name)) \<longrightarrow>
       infer_units_and_descriptions column_name = ('''', title (replace_underscores column_name))"
    unfolding infer_units_and_descriptions_def using match_patterns_none by blast
  have 3: "\<forall>p. str_contains p (lower column_name) \<longleftrightarrow> (\<exists>pre suf. lower column_name = pre @ p @ suf)"
    by (simp add: str_contains_iff)
  have 4: "infer_units_and_descriptions ''rollspeed'' = (''degrees'', ''Roll angle'')"
    by (simp add: infer_units_and_descriptions_def patterns_def lower_def is_upper_def)
  have 5: "infer_units_and_descriptions ''timestamp'' = (''deg/s'', ''Roll rate'')"
    by (simp add: infer_units_and_descriptions_def patterns_def lower_def is_upper_def)
  have 6: "infer_units_and_descriptions ''my_ID2x'' = ('''', ''My Id2X'')"
    by (simp add: infer_units_and_descriptions_def patterns_def title_def replace_underscores_def string_eval)
  from 1 2 3 4 5 6 show ?thesis by blast
qed

theorem infer_units_first_match_witness:
  "(3::nat) < length patterns
   \<and> str_contains (fst (patterns ! 3)) (lower ''RollSpeed'')
   \<and> str_contains (fst (patterns ! 0)) (lower ''RollSpeed'')
   \<and> infer_units_and_descriptions ''RollSpeed'' = snd (patterns ! 0)
   \<and> snd (patterns ! 0) = (''degrees'', ''Roll angle'')
   \<and> list_all (\<lambda>p. \<not> str_contains (fst p) (lower ''my_ID2x'')) patterns
   \<and> infer_units_and_descriptions ''my_ID2x'' = ('''', title (replace_underscores ''my_ID2x''))"
proof -
  have a: "(3::nat) < length patterns" "(0::nat) < length patterns" by (simp_all add: patterns_def)
  have b: "str_contains (fst (patterns ! 3)) (lower ''RollSpeed'')"
    by (simp add: patterns_def string_eval)
  have c: "str_contains (fst (patterns ! 0)) (lower ''RollSpeed'')"
    by (simp add: patterns_def string_eval)
  have d: "\<forall>p\<in>set patterns. \<not> str_contains (fst p) (lower ''my_ID2x'')"
    by (simp add: patterns_def string_eval)
  have e: "snd (patterns ! 0) = (''degrees'', ''Roll angle'')" by (simp add: patterns_def)
  from infer_units_first_match [of "''RollSpeed''"] a(2) c
  have f: "infer_units_and_descriptions ''RollSpeed'' = snd (patterns ! 0)" by blast
  from infer_units_first_match [of "''my_ID2x''"] d
  have g: "infer_units_and_descriptions ''my_ID2x'' = ('''', title (replace_underscores ''my_ID2x''))" by blast
  from d have d': "list_all (\<lambda>p. \<not> str_contains (fst p) (lower ''my_ID2x'')) patterns"
    by (simp add: list_all_iff)
  from a b c d' e f g show ?thesis by blast
qed

subsection \<open>Numeric Column Classifier\<close>

lemma sum_list_nonneg_real: "(\<And>x. x \<in> set xs \<Longrightarrow> 0 \<le> x) \<Longrightarrow> 0 \<le> sum_list (xs :: real list)"
  by (induction xs) auto

lemma mean_nonneg: "(\<And>x. x \<in> set xs \<Longrightarrow> 0 \<le> x) \<Longrightarrow> 0 \<le> mean xs"
  unfolding mean_def by (intro divide_nonneg_nonneg sum_list_nonneg_real) auto

lemma np_var_nonneg: "0 \<le> np_var xs"
  unfolding np_var_def by (rule mean_nonneg) auto

lemma sum_list_const: "set xs \<subseteq> {x} \<Longrightarrow> sum_list xs = real (length xs) * x"
  by (induction xs) (auto simp: algebra_simps)

lemma mean_const: "set xs \<subseteq> {x} \<Longrightarrow> xs \<noteq> [] \<Longrightarrow> mean xs = x"
  by (simp add: mean_def sum_list_const)

lemma sum_list_zero: "set xs \<subseteq> {0} \<Longrightarrow> sum_list (xs :: real list) = 0"
  by (induction xs) auto

lemma np_var_const: "set xs \<subseteq> {x} \<Longrightarrow> np_var xs = 0"
proof (cases "xs = []")
  case True
  then show ?thesis by (simp add: np_var_def mean_def)
next
  case False
  assume s: "set xs \<subseteq> {x}"
  from s False have m: "mean xs = x" by (rule mean_const)
  have "set (map (\<lambda>y. (y - mean xs)\<^sup>2) xs) \<subseteq> {0}" using s m by auto
  then have "sum_list (map (\<lambda>y. (y - mean xs)\<^sup>2) xs) = 0" by (rule sum_list_zero)
  then show ?thesis by (simp add: np_var_def mean_def)
qed

lemma card_le_one_subset: "card (set xs) \<le> 1 \<Longrightarrow> \<exists>x. set xs \<subseteq> {x}"
proof -
  assume a: "card (set xs) \<le> 1"
  show ?thesis
  proof (cases "set xs = {}")
    case True
    then show ?thesis by simp
  next
    case False
    then have "0 < card (set xs)" by (simp add: card_gt_0_iff)
    with a have "card (set xs) = 1" by arith
    then obtain y where "set xs = {y}" by (auto simp: card_1_singleton_iff)
    then show ?thesis by auto
  qed
qed

lemma np_var_nonzero: "np_var xs \<noteq> 0 \<Longrightarrow> 1 < card (set xs) \<and> 0 < np_var xs"
proof -
  assume nz: "np_var xs \<noteq> 0"
  have "\<not> card (set xs) \<le> 1"
  proof
    assume "card (set xs) \<le> 1"
    then obtain x where "set xs \<subseteq> {x}" using card_le_one_subset by blast
    then have "np_var xs = 0" by (rule np_var_const)
    with nz show False by simp
  qed
  moreover have "0 < np_var xs" using nz np_var_nonneg [of xs] by simp
  ultimately show ?thesis by simp
qed

lemma eighty_percent: "real a * (8 / 10) \<le> real b \<longleftrightarrow> 4 * a \<le> 5 * b"
proof -
  have "real a * (8 / 10) \<le> real b \<longleftrightarrow> real (4 * a) \<le> real (5 * b)"
    by (simp add: mult.commute)
  also have "\<dots> \<longleftrightarrow> 4 * a \<le> 5 * b" by (rule of_nat_le_iff)
  finally show ?thesis .
qed

lemma column_is_numeric_spec: "column_is_numeric lib V = spec_qualifies lib V"
  by (auto simp: column_is_numeric_def spec_qualifies_def Let_def eighty_percent)

lemma column_values_in_range:
  "\<forall>r\<in>set rws. i < length r \<Longrightarrow>
   column_values rws i = Inr (filter (\<lambda>v. v \<noteq> VNull) (map (\<lambda>r. r ! i) rws))"
  by (induction rws) auto

lemma read_row_length: "length (read_row t r) = length (columns t)"
  by (simp add: read_row_def)

lemma read_row_nth: "i < length (columns t) \<Longrightarrow> read_row t r ! i = cell r i"
  by (simp add: read_row_def)

lemma column_values_sample:
  assumes "i < length (columns t)"
  shows "column_values (map (read_row t) (take n (rows t))) i = Inr (sampled_values t n i)"
proof -
  have "\<forall>r\<in>set (map (read_row t) (take n (rows t))). i < length r"
    using assms by (simp add: read_row_length)
  then have "column_values (map (read_row t) (take n (rows t))) i =
      Inr (filter (\<lambda>v. v \<noteq> VNull) (map (\<lambda>r. r ! i) (map (read_row t) (take n (rows t)))))"
    by (rule column_values_in_range)
  moreover have "(\<lambda>r. r ! i) \<circ> read_row t = (\<lambda>r. cell r i)"
    by (rule ext) (simp add: read_row_nth [OF assms])
  ultimately show ?thesis by (simp add: sampled_values_def)
qed

lemma analyze_columns_sample:
  "\<forall>ic\<in>set ics. fst ic < length (columns t) \<Longrightarrow>
   analyze_columns lib (map (read_row t) (take n (rows t))) ics acc =
     acc @ map snd (filter (\<lambda>ic. spec_qualifies lib (sampled_values t n (fst ic))) ics)"
proof (induction ics arbitrary: acc)
  case Nil
  show ?case by simp
next
  case (Cons ic ics)
  obtain i col where ic: "ic = (i, col)" by (cases ic)
  with Cons.prems have i: "i < length (columns t)" by simp
  from Cons.prems have rest: "\<forall>ic\<in>set ics. fst ic < length (columns t)" by simp
  show ?case
    using Cons.IH [OF rest] by (simp add: ic column_values_sample [OF i] column_is_numeric_spec)
qed

lemma enumerate_fst_bound: "\<forall>ic\<in>set (enumerate 0 cols). fst ic < length cols"
  by (auto simp: in_set_enumerate_eq)

lemma detect_open:
  assumes "find_table tables table_name = Some t"
  shows "detect_numeric_columns lib (Open tables) table_name n =
     map snd (filter (\<lambda>ic. spec_qualifies lib (sampled_values t n (fst ic))) (enumerate 0 (columns t)))"
proof (cases "take n (rows t) = []")
  case True
  have "\<And>i. sampled_values t n i = []" unfolding sampled_values_def True by simp
  then have "\<And>i. \<not> spec_qualifies lib (sampled_values t n i)" by (simp add: spec_qualifies_def)
  then show ?thesis using assms True by (simp add: detect_numeric_columns_def)
next
  case False
  then show ?thesis using assms
    by (simp add: detect_numeric_columns_def analyze_columns_sample [OF enumerate_fst_bound])
qed

lemma set_detect_distinct:
  assumes "distinct cols" "i < length cols"
  shows "cols ! i \<in> set (map snd (filter (\<lambda>ic. Q (fst ic)) (enumerate 0 cols))) \<longleftrightarrow> Q i"
proof
  assume "cols ! i \<in> set (map snd (filter (\<lambda>ic. Q (fst ic)) (enumerate 0 cols)))"
  then obtain j where j: "(j, cols ! i) \<in> set (enumerate 0 cols)" "Q j" by auto
  then have "j < length cols" "cols ! j = cols ! i" by (auto simp: in_set_enumerate_eq)
  with assms have "j = i" by (simp add: nth_eq_iff_index_eq)
  with j show "Q i" by simp
next
  assume "Q i"
  moreover have "(i, cols ! i) \<in> set (enumerate 0 cols)" using assms by (simp add: in_set_enumerate_eq)
  ultimately show "cols ! i \<in> set (map snd (filter (\<lambda>ic. Q (fst ic)) (enumerate 0 cols)))"
    by force
qed

text \<open>
  Claim C1. With the sample of 100 rows, the classifier returns, in column order, exactly
  the columns whose list \<open>V\<close> of non-null sampled values qualifies: \<open>V\<close> has at least 5
  values, the coercible values \<open>N\<close> are at least 80 percent of \<open>V\<close> (boundary included),
  \<open>N\<close> has more than one distinct value and the population variance of \<open>N\<close> is positive.
  A column whose numeric values are all the same never qualifies, a column with fewer
  than 5 non-null values never qualifies, and a column with exactly 80 percent coercible
  values and non-zero variance qualifies.
\<close>

theorem detect_numeric_columns_iff:
  assumes "find_table tables table_name = Some t"
  shows "detect_numeric_columns lib (Open tables) table_name 100 =
           map snd (filter (\<lambda>ic. spec_qualifies lib (sampled_values t 100 (fst ic)))
                      (enumerate 0 (columns t)))
       \<and> (distinct (columns t) \<longrightarrow>
            (\<forall>i<length (columns t).
               columns t ! i \<in> set (detect_numeric_columns lib (Open tables) table_name 100) \<longleftrightarrow>
               spec_qualifies lib (sampled_values t 100 i)))
       \<and> (\<forall>V. spec_qualifies lib V \<longleftrightarrow>
              5 \<le> length V \<and>
              real (length V) * (8 / 10) \<le> real (length (collect_numeric lib V)) \<and>
              1 < card (set (collect_numeric lib V)) \<and>
              0 < np_var (collect_numeric lib V))
       \<and> (\<forall>V x. set (collect_numeric lib V) \<subseteq> {x} \<longrightarrow> \<not> spec_qualifies lib V)
       \<and> (\<forall>V. length V < 5 \<longrightarrow> \<not> spec_qualifies lib V)
       \<and> (\<forall>V. 5 \<le> length V \<and> 5 * length (collect_numeric lib V) = 4 * length V \<and>
              np_var (collect_numeric lib V) \<noteq> 0 \<longrightarrow> spec_qualifies lib V)"
proof -
  have 1: "detect_numeric_columns lib (Open tables) table_name 100 =
           map snd (filter (\<lambda>ic. spec_qualifies lib (sampled_values t 100 (fst ic)))
                      (enumerate 0 (columns t)))"
    using assms by (rule detect_open)
  have 2: "distinct (columns t) \<longrightarrow>
            (\<forall>i<length (columns t).
               columns t ! i \<in> set (detect_numeric_columns lib (Open tables) table_name 100) \<longleftrightarrow>
               spec_qualifies lib (sampled_values t 100 i))"
    unfolding 1 using set_detect_distinct [of "columns t" _ "\<lambda>i. spec_qualifies lib (sampled_values t 100 i)"]
    by blast
  have 3: "\<forall>V. spec_qualifies lib V \<longleftrightarrow>
              5 \<le> length V \<and>
              real (length V) * (8 / 10) \<le> real (length (collect_numeric lib V)) \<and>
              1 < card (set (collect_numeric lib V)) \<and>
              0 < np_var (collect_numeric lib V)"
    unfolding spec_qualifies_def Let_def eighty_percent by blast
  have 4: "\<forall>V x. set (collect_numeric lib V) \<subseteq> {x} \<longrightarrow> \<not> spec_qualifies lib V"
    by (simp add: spec_qualifies_def Let_def np_var_const)
  have 5: "\<forall>V. length V < 5 \<longrightarrow> \<not> spec_qualifies lib V"
    by (simp add: spec_qualifies_def Let_def)
  have 6: "\<forall>V. 5 \<le> length V \<and> 5 * length (collect_numeric lib V) = 4 * length V \<and>
              np_var (collect_numeric lib V) \<noteq> 0 \<longrightarrow> spec_qualifies lib V"
    using np_var_nonzero by (simp add: spec_qualifies_def Let_def)
  from 1 2 3 4 5 6 show ?thesis by blast
qed

lemma example_find: "find_table [(''ATT'', example_table)] ''ATT'' = Some example_table"
  by (simp add: string_eval)

lemma example_samples:
  "sampled_values example_table 100 0 = [VInt 1000000, VInt 2000000, VInt 3000000, VInt 4000000, VInt 5000000]"
  "sampled_values example_table 100 (Suc 0) = [VReal 1, VReal 2, VText ''x'', VReal 3, VReal 4]"
  "sampled_values example_table 100 2 = [VText ''AUTO'', VText ''AUTO'', VText ''AUTO'', VText ''RTL'', VText ''RTL'']"
  "sampled_values example_table 100 3 = [VInt 7, VInt 7, VInt 7, VInt 7, VInt 7]"
  by (simp_all add: sampled_values_def example_table_def cell_def)

lemma example_qualifies:
  "spec_qualifies example_lib [VInt 1000000, VInt 2000000, VInt 3000000, VInt 4000000, VInt 5000000]"
  "spec_qualifies example_lib [VReal 1, VReal 2, VText ''x'', VReal 3, VReal 4]"
  "\<not> spec_qualifies example_lib [VText ''AUTO'', VText ''AUTO'', VText ''AUTO'', VText ''RTL'', VText ''RTL'']"
  "\<not> spec_qualifies example_lib [VInt 7, VInt 7, VInt 7, VInt 7, VInt 7]"
  by (simp_all add: spec_qualifies_def example_lib_def np_var_def mean_def power2_eq_square)

lemma example_detect_rhs:
  "map snd (filter (\<lambda>ic. spec_qualifies example_lib (sampled_values example_table 100 (fst ic)))
       (enumerate 0 (columns example_table))) = [''TimeUS'', ''Roll'']"
proof -
  have "enumerate 0 (columns example_table) = [(0, ''TimeUS''), (1, ''Roll''), (2, ''Mode''), (3, ''Const'')]"
    by (simp add: example_table_def)
  then show ?thesis by (simp add: example_samples example_qualifies)
qed

theorem detect_numeric_columns_iff_witness:
  "find_table [(''ATT'', example_table)] ''ATT'' = Some example_table
   \<and> detect_numeric_columns example_lib example_conn ''ATT'' 100 = [''TimeUS'', ''Roll'']
   \<and> \<not> spec_qualifies example_lib [VInt 7, VInt 7, VInt 7, VInt 7, VInt 7]
   \<and> \<not> spec_qualifies example_lib [VInt 1, VInt 2, VInt 3, VInt 4]
   \<and> spec_qualifies example_lib [VReal 1, VReal 2, VText ''x'', VReal 3, VReal 4]"
proof -
  from detect_numeric_columns_iff [OF example_find, of example_lib]
  have "detect_numeric_columns example_lib example_conn ''ATT'' 100 = [''TimeUS'', ''Roll'']"
    unfolding example_conn_def example_detect_rhs by blast
  moreover have "\<not> spec_qualifies example_lib [VInt 1, VInt 2, VInt 3, VInt 4]"
    by (simp add: spec_qualifies_def)
  ultimately show ?thesis using example_find example_qualifies by blast
qed

subsection \<open>Attribute Catalog Builder\<close>

lemma set_update_cases:
  "(k', v') \<in> set (AList.update k v al) \<Longrightarrow> (k', v') = (k, v) \<or> (k', v') \<in> set al"
  by (induction al) (auto split: if_splits)

lemma map_of_update_other: "k' \<noteq> k \<Longrightarrow> map_of (AList.update k v al) k' = map_of al k'"
  by (simp add: update_conv')

lemma schema_loop_entries:
  "(n, info) \<in> set (schema_loop c names acc) \<Longrightarrow>
   (n, info) \<in> set acc \<or>
   (select_count c n = Inr (info_row_count info) \<and> pragma_table_info c n = Inr (info_columns info))"
proof (induction names arbitrary: acc)
  case Nil
  then show ?case by simp
next
  case (Cons name names)
  show ?case
  proof (cases "select_count c name")
    case (Inl e)
    with Cons.prems show ?thesis by simp
  next
    case (Inr k)
    note cnt = this
    show ?thesis
    proof (cases "pragma_table_info c name")
      case (Inl e)
      with cnt Cons.prems show ?thesis by simp
    next
      case (Inr cols)
      with cnt Cons.prems have
        "(n, info) \<in> set (schema_loop c names
            (AList.update name \<lparr>info_row_count = k, info_columns = cols\<rparr> acc))" by simp
      from Cons.IH [OF this] show ?thesis
      proof
        assume "(n, info) \<in> set (AList.update name \<lparr>info_row_count = k, info_columns = cols\<rparr> acc)"
        then have "(n, info) = (name, \<lparr>info_row_count = k, info_columns = cols\<rparr>) \<or> (n, info) \<in> set acc"
          by (rule set_update_cases)
        then show ?thesis using cnt Inr by auto
      next
        assume "select_count c n = Inr (info_row_count info) \<and>
                pragma_table_info c n = Inr (info_columns info)"
        then show ?thesis by simp
      qed
    qed
  qed
qed

lemma schema_entries:
  "(n, info) \<in> set (get_database_schema c) \<Longrightarrow>
   select_count c n = Inr (info_row_count info) \<and> pragma_table_info c n = Inr (info_columns info)"
  by (cases "sqlite_master_names c") (auto simp: get_database_schema_def dest: schema_loop_entries)

lemma describe_table_Some:
  assumes "describe_table lib c name info = Some d"
  shows "time_col d \<notin> set (attributes d) \<and> attributes d \<noteq> [] \<and> 0 < row_count d \<and>
         row_count d = info_row_count info \<and>
         get_time_column c name = Some (time_col d) \<and>
         attributes d = filter (\<lambda>col. col \<noteq> time_col d) (detect_numeric_columns lib c name 100)"
  using assms
  by (auto simp: describe_table_def Let_def split: if_splits option.splits prod.splits)

lemma attributes_loop_entries:
  "(n, d) \<in> set (attributes_loop lib c items acc) \<Longrightarrow>
   (n, d) \<in> set acc \<or> (\<exists>info. (n, info) \<in> set items \<and> describe_table lib c n info = Some d)"
proof (induction items arbitrary: acc)
  case Nil
  then show ?case by simp
next
  case (Cons item items)
  obtain name info where item: "item = (name, info)" by (cases item)
  show ?case
  proof (cases "describe_table lib c name info")
    case None
    with Cons.prems item have "(n, d) \<in> set (attributes_loop lib c items acc)" by simp
    from Cons.IH [OF this] show ?thesis by auto
  next
    case (Some d')
    with Cons.prems item have "(n, d) \<in> set (attributes_loop lib c items (AList.update name d' acc))"
      by simp
    from Cons.IH [OF this] show ?thesis
    proof
      assume "(n, d) \<in> set (AList.update name d' acc)"
      then have "(n, d) = (name, d') \<or> (n, d) \<in> set acc" by (rule set_update_cases)
      then show ?thesis using Some item by auto
    next
      assume "\<exists>info. (n, info) \<in> set items \<and> describe_table lib c n info = Some d"
      then show ?thesis by auto
    qed
  qed
qed

lemma attributes_loop_absent:
  "map_of acc n = None \<Longrightarrow>
   \<forall>info. (n, info) \<in> set items \<longrightarrow> describe_table lib c n info = None \<Longrightarrow>
   map_of (attributes_loop lib c items acc) n = None"
proof (induction items arbitrary: acc)
  case Nil
  then show ?case by simp
next
  case (Cons item items)
  obtain name info where item: "item = (name, info)" by (cases item)
  from Cons.prems have rest: "\<forall>info. (n, info) \<in> set items \<longrightarrow> describe_table lib c n info = None"
    by simp
  show ?case
  proof (cases "describe_table lib c name info")
    case None
    then show ?thesis using item Cons.IH [OF Cons.prems(1) rest] by simp
  next
    case (Some d')
    with Cons.prems item have "name \<noteq> n" by auto
    then have "map_of (AList.update name d' acc) n = None"
      using Cons.prems(1) by (simp add: map_of_update_other)
    from Cons.IH [OF this rest] show ?thesis using item Some by simp
  qed
qed

lemma filter_other_empty: "set xs \<subseteq> {tc} \<Longrightarrow> filter (\<lambda>col. col \<noteq> tc) xs = []"
  by (auto simp: filter_empty_conv)

lemma describe_table_None:
  assumes "info_row_count info = 0 \<or> get_time_column c name = None \<or>
           (\<forall>tc. get_time_column c name = Some tc \<longrightarrow>
                 set (detect_numeric_columns lib c name 100) \<subseteq> {tc})"
  shows "describe_table lib c name info = None"
proof (cases "get_time_column c name")
  case None
  then show ?thesis by (simp add: describe_table_def)
next
  case (Some tc)
  show ?thesis
  proof (cases "info_row_count info = 0")
    case True
    then show ?thesis by (simp add: describe_table_def)
  next
    case False
    with assms Some have "set (detect_numeric_columns lib c name 100) \<subseteq> {tc}" by simp
    then have "filter (\<lambda>col. col \<noteq> tc) (detect_numeric_columns lib c name 100) = []"
      by (rule filter_other_empty)
    then show ?thesis using Some by (simp add: describe_table_def Let_def)
  qed
qed

text \<open>
  Claim C2. Every descriptor the catalog builder emits has a time column that is not among
  its attributes, a non-empty attribute list and a positive row count; a table with no
  rows, with no time column, or with no numeric column other than the time column has no
  entry in the result.
\<close>

theorem catalog_descriptor_invariant:
  "(\<forall>nd\<in>set (get_all_dynamic_attributes lib c).
       time_col (snd nd) \<notin> set (attributes (snd nd)) \<and>
       attributes (snd nd) \<noteq> [] \<and>
       0 < row_count (snd nd) \<and>
       get_time_column c (fst nd) = Some (time_col (snd nd)) \<and>
       attributes (snd nd) =
         filter (\<lambda>col. col \<noteq> time_col (snd nd)) (detect_numeric_columns lib c (fst nd) 100))
   \<and> (\<forall>tables name t.
         c = Open tables \<and> find_table tables name = Some t \<and>
         (rows t = [] \<or> get_time_column c name = None \<or>
          (\<forall>tc. get_time_column c name = Some tc \<longrightarrow>
                set (detect_numeric_columns lib c name 100) \<subseteq> {tc})) \<longrightarrow>
         map_of (get_all_dynamic_attributes lib c) name = None)"
proof (intro conjI ballI allI impI)
  fix nd assume "nd \<in> set (get_all_dynamic_attributes lib c)"
  then have "(fst nd, snd nd) \<in> set (attributes_loop lib c (get_database_schema c) [])"
    by (simp add: get_all_dynamic_attributes_def)
  then obtain info where d: "describe_table lib c (fst nd) info = Some (snd nd)"
    using attributes_loop_entries by fastforce
  from describe_table_Some [OF d]
  show "time_col (snd nd) \<notin> set (attributes (snd nd))"
    and "attributes (snd nd) \<noteq> []"
    and "0 < row_count (snd nd)"
    and "get_time_column c (fst nd) = Some (time_col (snd nd))"
    and "attributes (snd nd) =
         filter (\<lambda>col. col \<noteq> time_col (snd nd)) (detect_numeric_columns lib c (fst nd) 100)"
    by blast+
next
  fix tables name t
  assume a: "c = Open tables \<and> find_table tables name = Some t \<and>
         (rows t = [] \<or> get_time_column c name = None \<or>
          (\<forall>tc. get_time_column c name = Some tc \<longrightarrow>
                set (detect_numeric_columns lib c name 100) \<subseteq> {tc}))"
  have "\<forall>info. (name, info) \<in> set (get_database_schema c) \<longrightarrow> describe_table lib c name info = None"
  proof (intro allI impI)
    fix info assume "(name, info) \<in> set (get_database_schema c)"
    then have "select_count c name = Inr (info_row_count info)" using schema_entries by blast
    with a have "info_row_count info = length (rows t)" by auto
    with a show "describe_table lib c name info = None"
      by (intro describe_table_None) auto
  qed
  then show "map_of (get_all_dynamic_attributes lib c) name = None"
    unfolding get_all_dynamic_attributes_def by (intro attributes_loop_absent) simp_all
qed

lemma example_detect:
  "detect_numeric_columns example_lib example_conn ''ATT'' 100 = [''TimeUS'', ''Roll'']"
  unfolding example_conn_def by (simp add: detect_open [OF example_find] example_detect_rhs)

lemma example_time_column: "get_time_column example_conn ''ATT'' = Some ''TimeUS''"
  by (simp add: get_time_column_def example_conn_def example_table_def time_patterns_def string_eval)

lemma example_schema:
  "get_database_schema example_conn = [(''ATT'', \<lparr>info_row_count = 5, info_columns = [''TimeUS'', ''Roll'', ''Mode'', ''Const'']\<rparr>)]"
  by (simp add: get_database_schema_def example_conn_def example_table_def string_eval)

lemma example_annotation: "infer_units_and_descriptions ''Roll'' = (''degrees'', ''Roll angle'')"
  by (simp add: infer_units_and_descriptions_def patterns_def lower_def is_upper_def)

lemma example_catalog:
  "get_all_dynamic_attributes example_lib example_conn =
     [(''ATT'', \<lparr>time_col = ''TimeUS'', attributes = [''Roll''],
                units = [(''Roll'', ''degrees'')], descriptions = [(''Roll'', ''Roll angle'')],
                row_count = 5\<rparr>)]"
  by (simp add: get_all_dynamic_attributes_def example_schema describe_table_def
      example_time_column example_detect example_annotation)

theorem catalog_descriptor_invariant_witness:
  "get_all_dynamic_attributes example_lib example_conn =
     [(''ATT'', \<lparr>time_col = ''TimeUS'', attributes = [''Roll''],
                units = [(''Roll'', ''degrees'')], descriptions = [(''Roll'', ''Roll angle'')],
                row_count = 5\<rparr>)]
   \<and> ''TimeUS'' \<notin> set [''Roll'']
   \<and> get_time_column example_conn ''ATT'' = Some ''TimeUS''
   \<and> find_table [(''EMPTY'', \<lparr>columns = [''TimeUS'', ''Roll''], rows = []\<rparr>)] ''EMPTY''
       = Some \<lparr>columns = [''TimeUS'', ''Roll''], rows = []\<rparr>
   \<and> map_of (get_all_dynamic_attributes example_lib
         (Open [(''EMPTY'', \<lparr>columns = [''TimeUS'', ''Roll''], rows = []\<rparr>)])) ''EMPTY'' = None"
proof -
  let ?d = "\<lparr>time_col = ''TimeUS'', attributes = [''Roll''],
                units = [(''Roll'', ''degrees'')], descriptions = [(''Roll'', ''Roll angle'')],
                row_count = 5\<rparr>"
  have m: "(''ATT'', ?d) \<in> set (get_all_dynamic_attributes example_lib example_conn)"
    by (simp add: example_catalog)
  from catalog_descriptor_invariant [of example_lib example_conn] m
  have "time_col (snd (''ATT'', ?d)) \<notin> set (attributes (snd (''ATT'', ?d))) \<and>
        get_time_column example_conn (fst (''ATT'', ?d)) = Some (time_col (snd (''ATT'', ?d)))"
    by blast
  then have 1: "''TimeUS'' \<notin> set [''Roll'']" and 2: "get_time_column example_conn ''ATT'' = Some ''TimeUS''"
    by simp_all
  have f: "find_table [(''EMPTY'', \<lparr>columns = [''TimeUS'', ''Roll''], rows = []\<rparr>)] ''EMPTY''
       = Some \<lparr>columns = [''TimeUS'', ''Roll''], rows = []\<rparr>"
    by (simp add: string_eval)
  from catalog_descriptor_invariant [of example_lib "Open [(''EMPTY'', \<lparr>columns = [''TimeUS'', ''Roll''], rows = []\<rparr>)]"] f
  have 3: "map_of (get_all_dynamic_attributes example_lib
         (Open [(''EMPTY'', \<lparr>columns = [''TimeUS'', ''Roll''], rows = []\<rparr>)])) ''EMPTY'' = None"
    by simp
  from example_catalog 1 2 f 3 show ?thesis by blast
qed

subsection \<open>Time Normalizer\<close>

lemma py_int_of_int: "py_int (of_int k) = k"
  by (simp add: py_int_def)

lemma float_mod_range: "0 < y \<Longrightarrow> 0 \<le> float_mod x y \<and> float_mod x y < y"
proof -
  assume y: "0 < y"
  have "of_int \<lfloor>x / y\<rfloor> \<le> x / y" by simp
  with y have "of_int \<lfloor>x / y\<rfloor> * y \<le> x" by (simp only: pos_le_divide_eq)
  then have a: "y * of_int \<lfloor>x / y\<rfloor> \<le> x" by (simp add: mult.commute)
  have "x / y < of_int \<lfloor>x / y\<rfloor> + 1" by linarith
  with y have "x < (of_int \<lfloor>x / y\<rfloor> + 1) * y" by (simp only: pos_divide_less_eq)
  then have b: "x < y * of_int \<lfloor>x / y\<rfloor> + y" by (simp add: algebra_simps)
  from a b show ?thesis by (simp add: float_mod_def)
qed

lemma py_int_nonneg: "0 \<le> x \<Longrightarrow> py_int x = \<lfloor>x\<rfloor>"
  by (simp add: py_int_def)

lemma format_time_floor:
  "format_time sec = str_int \<lfloor>sec / 60\<rfloor> @ '':'' @ format_02d (\<lfloor>sec\<rfloor> - 60 * \<lfloor>sec / 60\<rfloor>)"
proof -
  have m: "py_int (float_floordiv sec 60) = \<lfloor>sec / 60\<rfloor>"
    by (simp add: float_floordiv_def py_int_of_int)
  have "0 \<le> float_mod sec 60" using float_mod_range [of 60 sec] by simp
  then have p: "py_int (float_mod sec 60) = \<lfloor>float_mod sec 60\<rfloor>" by (rule py_int_nonneg)
  have "float_mod sec 60 = sec - of_int (60 * \<lfloor>sec / 60\<rfloor>)" by (simp add: float_mod_def)
  then have "\<lfloor>float_mod sec 60\<rfloor> = \<lfloor>sec\<rfloor> - 60 * \<lfloor>sec / 60\<rfloor>"
    by (simp only: floor_diff_of_int)
  with p have r: "py_int (float_mod sec 60) = \<lfloor>sec\<rfloor> - 60 * \<lfloor>sec / 60\<rfloor>" by simp
  show ?thesis by (simp add: format_time_def Let_def m r)
qed

lemma floor_seconds: "\<lfloor>real_of_int v / 1000000\<rfloor> = v div 1000000"
  using floor_divide_of_int_eq [of v 1000000, where ?'a = real] by simp

lemma floor_minutes: "\<lfloor>real_of_int v / 1000000 / 60\<rfloor> = v div 60000000"
  using floor_divide_of_int_eq [of v 60000000, where ?'a = real] by simp

lemma remainder_mod: "v div 1000000 - 60 * (v div 60000000) = (v div 1000000) mod (60::int)"
proof -
  have "v div 60000000 = v div (1000000 * 60)" by simp
  also have "\<dots> = (v div 1000000) div 60" by (rule zdiv_zmult2_eq) simp
  finally show ?thesis by (simp add: minus_mult_div_eq_mod)
qed

lemma format_time_int:
  "format_time (real_of_int v / 1000000) =
     str_int (v div 60000000) @ '':'' @ format_02d ((v div 1000000) mod 60)"
  by (simp only: format_time_floor floor_seconds floor_minutes remainder_mod)





subsection \<open>Query engine: the time column\<close>

lemma first_col_with_Some:
  "first_col_with p cols = Some col \<Longrightarrow> col \<in> set cols \<and> pattern_in_col p col"
  by (induction cols) (auto split: if_splits)

lemma scan_patterns_Some:
  "scan_patterns ps cols = Some col \<Longrightarrow> col \<in> set cols \<and> (\<exists>p\<in>set ps. pattern_in_col p col)"
proof (induction ps)
  case Nil
  then show ?case by simp
next
  case (Cons p ps)
  show ?case
  proof (cases "first_col_with p cols")
    case None
    with Cons show ?thesis by auto
  next
    case (Some col')
    with Cons.prems have "col' = col" by simp
    with Some first_col_with_Some [of p cols col] show ?thesis by auto
  qed
qed

lemma scan_patterns_no_columns: "scan_patterns ps [] = None"
  by (induction ps) auto

lemma time_pattern_not_in_empty: "p \<in> set time_patterns \<Longrightarrow> \<not> pattern_in_col p []"
  by (auto simp: time_patterns_def pattern_in_col_def lower_def)

lemma get_time_column_nonempty: "get_time_column c name = Some col \<Longrightarrow> col \<noteq> []"
proof
  assume g: "get_time_column c name = Some col" and e: "col = []"
  then obtain cols where "scan_patterns time_patterns cols = Some []"
    by (cases "pragma_table_info c name") (auto simp: get_time_column_def)
  then obtain p where "p \<in> set time_patterns" "pattern_in_col p []"
    using scan_patterns_Some by blast
  then show False using time_pattern_not_in_empty by blast
qed

lemma get_time_column_present:
  assumes "get_time_column c name = Some col"
  shows "\<exists>tables t. c = Open tables \<and> find_table tables name = Some t \<and> col \<in> set (columns t)"
proof (cases c)
  case Closed
  with assms show ?thesis by (simp add: get_time_column_def)
next
  case (Open tables)
  show ?thesis
  proof (cases "find_table tables name")
    case None
    with assms Open show ?thesis by (simp add: get_time_column_def scan_patterns_no_columns)
  next
    case (Some t)
    with assms Open have "scan_patterns time_patterns (columns t) = Some col"
      by (simp add: get_time_column_def)
    then have "col \<in> set (columns t)" using scan_patterns_Some by blast
    with Open Some show ?thesis by blast
  qed
qed

lemma get_chart_data_no_time_column:
  "get_time_column c m = None \<Longrightarrow>
   get_chart_data lib c m attrs limit = Inl (ValueError (''No time column found for '' @ m))"
  by (simp add: get_chart_data_def)

lemma schema_closed: "get_all_dynamic_attributes lib Closed = []"
  by (simp add: get_all_dynamic_attributes_def get_database_schema_def)

text \<open>
  Claim C10. The resolver is total: it returns None or the name of a column of the table
  it was asked about. An exception of the introspection (a closed store) and an unknown
  table both give None, so that \<open>get_chart_data\<close> reports a store that cannot be read with
  the very message of a table without time column, and the catalog builder returns the
  empty catalog.
\<close>

theorem get_time_column_total:
  "(get_time_column c name = None \<or>
      (\<exists>tables t col. c = Open tables \<and> find_table tables name = Some t \<and>
          get_time_column c name = Some col \<and> col \<in> set (columns t)))
   \<and> get_time_column Closed name = None
   \<and> (\<forall>tables. find_table tables name = None \<longrightarrow> get_time_column (Open tables) name = None)
   \<and> get_chart_data lib Closed name attrs limit =
       Inl (ValueError (''No time column found for '' @ name))
   \<and> (\<forall>tables. get_time_column (Open tables) name = None \<longrightarrow>
         get_chart_data lib (Open tables) name attrs limit =
         get_chart_data lib Closed name attrs limit)
   \<and> get_all_dynamic_attributes lib Closed = []"
proof -
  have 1: "get_time_column c name = None \<or>
      (\<exists>tables t col. c = Open tables \<and> find_table tables name = Some t \<and>
          get_time_column c name = Some col \<and> col \<in> set (columns t))"
  proof (cases "get_time_column c name")
    case None
    then show ?thesis by simp
  next
    case (Some col)
    from get_time_column_present [OF Some] Some show ?thesis by blast
  qed
  have 2: "get_time_column Closed name = None" by (simp add: get_time_column_def)
  have 3: "\<forall>tables. find_table tables name = None \<longrightarrow> get_time_column (Open tables) name = None"
    by (simp add: get_time_column_def scan_patterns_no_columns)
  have 4: "get_chart_data lib Closed name attrs limit =
       Inl (ValueError (''No time column found for '' @ name))"
    using 2 by (rule get_chart_data_no_time_column)
  have 5: "\<forall>tables. get_time_column (Open tables) name = None \<longrightarrow>
         get_chart_data lib (Open tables) name attrs limit =
         get_chart_data lib Closed name attrs limit"
    using 4 by (simp add: get_chart_data_no_time_column)
  from 1 2 3 4 5 schema_closed show ?thesis by blast
qed

lemma plain_no_time: "get_time_column plain_conn ''PARM'' = None"
  by (simp add: get_time_column_def plain_conn_def time_patterns_def string_eval)

theorem get_time_column_total_witness:
  "get_time_column plain_conn ''PARM'' = None
   \<and> get_chart_data example_lib plain_conn ''PARM'' [''Value''] None =
       Inl (ValueError ''No time column found for PARM'')
   \<and> get_chart_data example_lib Closed ''PARM'' [''Value''] None =
       Inl (ValueError ''No time column found for PARM'')
   \<and> get_time_column example_conn ''ATT'' = Some ''TimeUS''
   \<and> ''TimeUS'' \<in> set (columns example_table)"
proof -
  note t = get_time_column_total [of plain_conn "''PARM''" example_lib "[''Value'']" None]
  from t have a: "get_chart_data example_lib Closed ''PARM'' [''Value''] None =
       Inl (ValueError ''No time column found for PARM'')" by simp
  from t plain_no_time have "get_chart_data example_lib plain_conn ''PARM'' [''Value''] None =
       get_chart_data example_lib Closed ''PARM'' [''Value''] None"
    unfolding plain_conn_def by blast
  with a have b: "get_chart_data example_lib plain_conn ''PARM'' [''Value''] None =
       Inl (ValueError ''No time column found for PARM'')" by simp
  have c: "''TimeUS'' \<in> set (columns example_table)" by (simp add: example_table_def)
  from plain_no_time a b example_time_column c show ?thesis by blast
qed

subsection \<open>Query engine: chart data\<close>



lemma df_get_lift_frame: "df_get (lift_frame df) label = map (map Value) (df_get df label)"
  by (induction df) (auto simp: df_get_def lift_frame_def)

lemma df_get_map_other:
  "label' \<noteq> label \<Longrightarrow>
   df_get (map (\<lambda>col. if fst col = label then (label, values) else col) df) label' =
   df_get df label'"
  by (induction df) (auto simp: df_get_def)

lemma df_get_assign_other:
  "label' \<noteq> label \<Longrightarrow> df_get (df_assign df label values) label' = df_get df label'"
  by (cases "label \<in> set (map fst df)")
     (simp_all add: df_assign_def df_get_map_other, simp add: df_get_def)

lemma df_get_map_same:
  "df_get (map (\<lambda>col. if fst col = label then (label, values) else col) df) label =
   replicate (length (df_get df label)) values"
  by (induction df) (auto simp: df_get_def)

lemma df_get_member: "df_get df label \<noteq> [] \<Longrightarrow> label \<in> set (map fst df)"
  by (induction df) (auto simp: df_get_def split: if_splits)

lemma df_get_assign_same_single:
  assumes "df_get df label = [old]"
  shows "df_get (df_assign df label values) label = [values]"
proof -
  from assms have "df_get df label \<noteq> []" by simp
  then have mem: "label \<in> set (map fst df)" by (rule df_get_member)
  then have "df_assign df label values =
      map (\<lambda>col. if fst col = label then (label, values) else col) df"
    by (simp add: df_assign_def)
  then show ?thesis by (simp add: df_get_map_same assms)
qed

lemma those_map_Some: "those (map Some vs) = Some vs"
  by (induction vs) auto

lemma frame_astype_str_values: "frame_astype_str lib (map Value vs) = astype_str lib vs"
  by (simp add: frame_astype_str_def those_map_Some comp_def)

lemma frame_astype_str_datetimes:
  "frame_astype_str lib (map Datetime ds) = map (py_str_datetime lib) ds"
  by (cases ds) (simp_all add: frame_astype_str_def astype_str_def)



lemma chart_unfold:
  assumes "get_time_column c m = Some tc" "select_columns c m (tc # attrs) limit = Inr df"
    "\<not> df_empty df"
  shows "get_chart_data lib c m attrs limit =
     (if str_contains ''timeus'' (lower tc)
              then (case df_get df tc of
                      [] \<Rightarrow> Inl (KeyError tc)
                    | [series] \<Rightarrow>
                        (case convert_timeus_to_datetime_and_format series of
                           Inl e \<Rightarrow> Inl e
                         | Inr (datetime_col, formatted_col) \<Rightarrow>
                             Inr \<lparr>data = df_assign
                                          (df_assign (lift_frame df) ''datetime''
                                             (map Datetime datetime_col))
                                          ''time_formatted'' (text_values formatted_col),
                                  time_column = ''datetime'',
                                  time_formatted_column = ''time_formatted'',
                                  chart_attributes = attrs, message_type = m\<rparr>)
                    | series # others \<Rightarrow>
                        (case all_results (map (\<lambda>s. divide_series s 1000000) (series # others)) of
                           Inl e \<Rightarrow> Inl e
                         | Inr seconds \<Rightarrow> Inl (ValueError ''cannot assemble with duplicate keys'')))
              else (case df_get df tc of
                      [] \<Rightarrow> Inl (KeyError tc)
                    | [series] \<Rightarrow>
                        (case df_get (df_assign (lift_frame df) ''datetime''
                                        (map Datetime (to_datetime_coerce lib series))) tc of
                           [] \<Rightarrow> Inl (KeyError tc)
                         | [series_now] \<Rightarrow>
                             Inr \<lparr>data = df_assign
                                          (df_assign (lift_frame df) ''datetime''
                                             (map Datetime (to_datetime_coerce lib series)))
                                          ''time_formatted''
                                          (text_values (frame_astype_str lib series_now)),
                                  time_column = ''datetime'',
                                  time_formatted_column = ''time_formatted'',
                                  chart_attributes = attrs, message_type = m\<rparr>
                         | series_now # others \<Rightarrow>
                             Inl (ValueError ''cannot assemble with duplicate keys''))
                    | series # others \<Rightarrow> Inl (ValueError ''cannot assemble with duplicate keys'')))"
  using get_time_column_nonempty [OF assms(1)]
  by (simp only: get_chart_data_def assms option.case sum.case if_False)


text \<open>The column read by the second \<^verbatim>\<open>df[time_col]\<close> of the other path.\<close>

lemma second_read:
  assumes "df_get df tc = [series]"
  shows "df_get (df_assign (lift_frame df) ''datetime'' values) tc =
           [if tc = ''datetime'' then values else map Value series]"
proof (cases "tc = ''datetime''")
  case True
  have "df_get (lift_frame df) ''datetime'' = [map Value series]"
    using assms True by (simp add: df_get_lift_frame)
  then have "df_get (df_assign (lift_frame df) ''datetime'' values) ''datetime'' = [values]"
    by (rule df_get_assign_same_single)
  with True show ?thesis by simp
next
  case False
  then have "df_get (df_assign (lift_frame df) ''datetime'' values) tc = df_get (lift_frame df) tc"
    by (rule df_get_assign_other)
  with False assms show ?thesis by (simp add: df_get_lift_frame)
qed

lemma chart_other_time:
  assumes "get_time_column c m = Some tc" "select_columns c m (tc # attrs) limit = Inr df"
    "\<not> df_empty df" "df_get df tc = [series]" "\<not> str_contains ''timeus'' (lower tc)"
  shows "get_chart_data lib c m attrs limit =
     Inr \<lparr>data = df_assign
                  (df_assign (lift_frame df) ''datetime''
                     (map Datetime (to_datetime_coerce lib series)))
                  ''time_formatted''
                  (text_values (frame_astype_str lib
                     (if tc = ''datetime'' then map Datetime (to_datetime_coerce lib series)
                      else map Value series))),
          time_column = ''datetime'', time_formatted_column = ''time_formatted'',
          chart_attributes = attrs, message_type = m\<rparr>"
  by (simp only: chart_unfold [OF assms(1,2,3)] assms(4,5) if_False list.case
      second_read [OF assms(4)])











lemma list_all_is_number: "list_all is_number vs \<longleftrightarrow> (\<forall>v\<in>set vs. is_number v)"
  by (simp add: list_all_iff)


















text \<open>A name of the implicit row id is selected under the label \<^verbatim>\<open>rowid\<close>.\<close>

lemma example_select_rowid:
  "select_columns example_conn ''ATT'' [''TimeUS'', ''OID''] (Some 2) =
     Inr [(''TimeUS'', [VInt 1000000, VInt 2000000]), (''rowid'', [VInt 1, VInt 2])]"
  by (simp add: example_conn_def example_table_def resolve_column_def is_rowid_name_def cell_def
      string_eval)

lemma format_time_examples: "format_time 1 = ''0:01''" "format_time 2 = ''0:02''"
  using format_time_int [of 1000000] format_time_int [of 2000000]
  by (simp_all add: str_int_def format_02d_def str_nat.simps digit_char_def)

lemma example_convert:
  "convert_timeus_to_datetime_and_format [VInt 1000000, VInt 2000000] =
     Inr ([Timestamp 1, Timestamp 2], [''0:01'', ''0:02''])"
  by (simp add: convert_timeus_to_datetime_and_format_def divide_series_def
      in_datetime_bounds_def format_time_examples)


text \<open>
  A time column that is itself labelled \<^verbatim>\<open>datetime\<close> is overwritten by the converted
  values, and the string form is then taken from the converted column.
\<close>

lemma stamp_time_column: "get_time_column stamp_conn ''EV'' = Some ''datetime''"
  by (simp add: get_time_column_def stamp_conn_def time_patterns_def string_eval)

lemma stamp_select:
  "select_columns stamp_conn ''EV'' [''datetime'', ''code''] None =
     Inr [(''datetime'', [VInt 5000000000]), (''code'', [VInt 1])]"
  by (simp add: stamp_conn_def resolve_column_def cell_def string_eval)

lemma stamp_chart:
  "get_chart_data lib stamp_conn ''EV'' [''code''] None =
     Inr \<lparr>data = [(''datetime'', [Datetime (Timestamp 5)]),
                 (''code'', [Value (VInt 1)]),
                 (''time_formatted'', [Value (VText (py_str_datetime lib (Timestamp 5)))])],
          time_column = ''datetime'', time_formatted_column = ''time_formatted'',
          chart_attributes = [''code''], message_type = ''EV''\<rparr>"
proof -
  have ne: "\<not> df_empty [(''datetime'', [VInt 5000000000]), (''code'', [VInt 1])]"
    by (simp add: df_empty_def)
  have g: "df_get [(''datetime'', [VInt 5000000000]), (''code'', [VInt 1])] ''datetime''
      = [[VInt 5000000000]]"
    by (simp add: df_get_def)
  have us: "\<not> str_contains ''timeus'' (lower ''datetime'')" by (simp add: string_eval)
  have t: "to_datetime_coerce lib [VInt 5000000000] = [Timestamp 5]"
    by (simp add: to_datetime_coerce_def numeric_dtype_def in_datetime_bounds_def)
  have d: "df_assign
        (df_assign (lift_frame [(''datetime'', [VInt 5000000000]), (''code'', [VInt 1])])
           ''datetime'' (map Datetime [Timestamp 5]))
        ''time_formatted''
        (text_values (frame_astype_str lib (map Datetime [Timestamp 5]))) =
      [(''datetime'', [Datetime (Timestamp 5)]),
       (''code'', [Value (VInt 1)]),
       (''time_formatted'', [Value (VText (py_str_datetime lib (Timestamp 5)))])]"
    by (simp add: df_assign_def lift_frame_def text_values_def frame_astype_str_def)
  show ?thesis
    by (simp only: chart_other_time [OF stamp_time_column stamp_select ne g us] t simp_thms if_True d)
qed




subsection \<open>Time normalization in the chart data\<close>

lemma boot_time_column: "get_time_column boot_conn ''SYS'' = Some ''time_boot_ms''"
  by (simp add: get_time_column_def boot_conn_def time_patterns_def string_eval)

lemma boot_select:
  "select_columns boot_conn ''SYS'' [''time_boot_ms'', ''load''] None =
     Inr [(''time_boot_ms'', [VInt 1000000, VInt 2000000]), (''load'', [VInt 5, VInt 7])]"
  by (simp add: boot_conn_def resolve_column_def cell_def string_eval)

lemma boot_datetime:
  "to_datetime_coerce lib [VInt 1000000, VInt 2000000] =
     [Timestamp (1 / 1000), Timestamp (1 / 500)]"
  by (simp add: to_datetime_coerce_def numeric_dtype_def in_datetime_bounds_def)

lemma boot_formatted:
  "astype_str lib [VInt 1000000, VInt 2000000] = [''1000000'', ''2000000'']"
  by (simp add: astype_str_def str_int_def str_nat.simps digit_char_def)

lemma boot_chart:
  "get_chart_data lib boot_conn ''SYS'' [''load''] None =
     Inr \<lparr>data = [(''time_boot_ms'', [Value (VInt 1000000), Value (VInt 2000000)]),
                 (''load'', [Value (VInt 5), Value (VInt 7)]),
                 (''datetime'', [Datetime (Timestamp (1 / 1000)), Datetime (Timestamp (1 / 500))]),
                 (''time_formatted'', [Value (VText ''1000000''), Value (VText ''2000000'')])],
          time_column = ''datetime'', time_formatted_column = ''time_formatted'',
          chart_attributes = [''load''], message_type = ''SYS''\<rparr>"
proof -
  have ne: "\<not> df_empty [(''time_boot_ms'', [VInt 1000000, VInt 2000000]), (''load'', [VInt 5, VInt 7])]"
    by (simp add: df_empty_def)
  have g: "df_get [(''time_boot_ms'', [VInt 1000000, VInt 2000000]), (''load'', [VInt 5, VInt 7])]
      ''time_boot_ms'' = [[VInt 1000000, VInt 2000000]]"
    by (simp add: df_get_def)
  have nus: "\<not> str_contains ''timeus'' (lower ''time_boot_ms'')" by (simp add: string_eval)
  have neq: "''time_boot_ms'' \<noteq> ''datetime''" by simp
  have d: "df_assign
        (df_assign (lift_frame [(''time_boot_ms'', [VInt 1000000, VInt 2000000]),
                                (''load'', [VInt 5, VInt 7])])
           ''datetime'' (map Datetime [Timestamp (1 / 1000), Timestamp (1 / 500)]))
        ''time_formatted''
        (text_values (frame_astype_str lib (map Value [VInt 1000000, VInt 2000000]))) =
      [(''time_boot_ms'', [Value (VInt 1000000), Value (VInt 2000000)]),
       (''load'', [Value (VInt 5), Value (VInt 7)]),
       (''datetime'', [Datetime (Timestamp (1 / 1000)), Datetime (Timestamp (1 / 500))]),
       (''time_formatted'', [Value (VText ''1000000''), Value (VText ''2000000'')])]"
    by (simp only: frame_astype_str_values boot_formatted)
       (simp add: df_assign_def lift_frame_def text_values_def)
  show ?thesis
    by (simp only: chart_other_time [OF boot_time_column boot_select ne g nus]
        boot_datetime neq if_False d)
qed

text \<open>
  Claim C5, where the code departs from the specification. For the microsecond counter
  the elapsed value is the raw value divided by 1,000,000, as specified: the raw values
  1000000 and 2000000 are the instants 1 s and 2 s. For another time base the
  specification asks for the raw value to be passed through unchanged, but the code
  converts it with \<^verbatim>\<open>pd.to_datetime(..., errors='coerce')\<close>, which reads a number as a count
  of nanoseconds: on the table \<^verbatim>\<open>SYS\<close>, whose millisecond counter \<^verbatim>\<open>time_boot_ms\<close> holds
  1000000 and 2000000, the elapsed values of the Chart Result are the instants 0.001 s
  and 0.002 s after the epoch. Only the string form is that of the raw value.
\<close>

theorem time_normalization_failing_input:
  "get_chart_data lib boot_conn ''SYS'' [''load''] None =
     Inr \<lparr>data = [(''time_boot_ms'', [Value (VInt 1000000), Value (VInt 2000000)]),
                 (''load'', [Value (VInt 5), Value (VInt 7)]),
                 (''datetime'', [Datetime (Timestamp (1 / 1000)), Datetime (Timestamp (1 / 500))]),
                 (''time_formatted'', [Value (VText ''1000000''), Value (VText ''2000000'')])],
          time_column = ''datetime'', time_formatted_column = ''time_formatted'',
          chart_attributes = [''load''], message_type = ''SYS''\<rparr>
   \<and> convert_timeus_to_datetime_and_format [VInt 1000000, VInt 2000000] =
       Inr ([Timestamp 1, Timestamp 2], [''0:01'', ''0:02''])"
  using boot_chart example_convert by (rule conjI)

subsection \<open>Query engine: statistics\<close>

lemma statistics_example:
  "series_statistics [VReal 1, VReal 2, VReal 3] =
     Inr \<lparr>stat_mean = Some 2, stat_std = Some 1, stat_min = Some 1, stat_max = Some 3,
          stat_count = 3\<rparr>"
  by (simp add: series_statistics_def List.map_filter_def mean_def sample_std_def power2_eq_square)

lemma stats_statement:
  "select_statement ''T'' [''a'', ''missing''] None = ''SELECT [a], [missing] FROM [T]''"
  by (simp add: select_statement_def bracketed_def)

lemma stats_missing:
  "calculate_data_statistics stats_conn ''T'' [''a'', ''missing''] =
     Inl (DatabaseError
       ''Execution failed on sql 'SELECT [a], [missing] FROM [T]': no such column: missing'')"
  by (simp add: calculate_data_statistics_def stats_conn_def resolve_column_def is_rowid_name_def
      execution_failed_def stats_statement string_eval)

lemma stats_present:
  "calculate_data_statistics stats_conn ''T'' [''a''] =
     Inr [(''a'', \<lparr>stat_mean = Some 2, stat_std = Some 1, stat_min = Some 1, stat_max = Some 3,
                  stat_count = 3\<rparr>)]"
proof -
  have s: "select_columns stats_conn ''T'' [''a''] None = Inr [(''a'', [VReal 1, VReal 2, VReal 3])]"
    by (simp add: stats_conn_def resolve_column_def cell_def string_eval)
  show ?thesis
    by (simp add: calculate_data_statistics_def s df_empty_def df_get_def statistics_example)
qed

text \<open>
  Claim C7, where the code departs from the specification. On the table \<^verbatim>\<open>T\<close> whose
  column \<^verbatim>\<open>a\<close> holds 1.0, 2.0, 3.0, the statistics of \<^verbatim>\<open>a\<close> alone are mean 2, sample
  standard deviation 1, minimum 1, maximum 3 and count 3, over all rows. With the
  attributes \<^verbatim>\<open>a\<close> and \<^verbatim>\<open>missing\<close>, of which the second is no column of the table, the
  specification asks for the statistics of \<^verbatim>\<open>a\<close> with \<^verbatim>\<open>missing\<close> silently omitted, and the
  loop of the code has the guard \<^verbatim>\<open>if attr in df.columns\<close> for it; but every requested
  attribute is named in the SELECT statement, so that the query fails before the loop and
  the whole call returns a tagged failure.
\<close>

theorem statistics_missing_attribute:
  "calculate_data_statistics stats_conn ''T'' [''a'', ''missing''] =
     Inl (DatabaseError
       ''Execution failed on sql 'SELECT [a], [missing] FROM [T]': no such column: missing'')
   \<and> calculate_data_statistics stats_conn ''T'' [''a''] =
     Inr [(''a'', \<lparr>stat_mean = Some 2, stat_std = Some 1, stat_min = Some 1, stat_max = Some 3,
                  stat_count = 3\<rparr>)]"
  using stats_missing stats_present by (rule conjI)

subsection \<open>Record Materializer\<close>

lemma set_add_keys: "set (add_keys cols ks) = set cols \<union> set ks"
  by (induction ks arbitrary: cols) auto

lemma distinct_add_keys: "distinct cols \<Longrightarrow> distinct (add_keys cols ks)"
  by (induction ks arbitrary: cols) auto

lemma add_keys_extends: "\<exists>rest. add_keys cols ks = cols @ rest"
proof (induction ks arbitrary: cols)
  case Nil
  show ?case by simp
next
  case (Cons k ks)
  show ?case
  proof (cases "k \<in> set cols")
    case True
    with Cons [of cols] show ?thesis by simp
  next
    case False
    from Cons [of "cols @ [k]"] obtain rest where "add_keys (cols @ [k]) ks = (cols @ [k]) @ rest" ..
    with False show ?thesis by simp
  qed
qed

lemma add_keys_fresh:
  "distinct ks \<Longrightarrow> set ks \<inter> set cols = {} \<Longrightarrow> add_keys cols ks = cols @ ks"
  by (induction ks arbitrary: cols) auto

lemma set_foldl_add_keys:
  "set (foldl add_keys cols kss) = set cols \<union> (\<Union>ks\<in>set kss. set ks)"
  by (induction kss arbitrary: cols) (auto simp: set_add_keys)

lemma distinct_foldl_add_keys: "distinct cols \<Longrightarrow> distinct (foldl add_keys cols kss)"
  by (induction kss arbitrary: cols) (auto simp: distinct_add_keys)

lemma foldl_add_keys_extends: "\<exists>rest. foldl add_keys cols kss = cols @ rest"
proof (induction kss arbitrary: cols)
  case Nil
  show ?case by simp
next
  case (Cons ks kss)
  obtain r1 where r1: "add_keys cols ks = cols @ r1" using add_keys_extends by blast
  from Cons [of "add_keys cols ks"] obtain r2
    where "foldl add_keys (add_keys cols ks) kss = add_keys cols ks @ r2" ..
  with r1 show ?case by simp
qed

lemma set_dataframe_columns:
  "set (dataframe_columns records) = (\<Union>r\<in>set records. fst ` set r)"
  by (simp add: dataframe_columns_def set_foldl_add_keys)

lemma distinct_dataframe_columns: "distinct (dataframe_columns records)"
  by (simp add: dataframe_columns_def distinct_foldl_add_keys)

lemma dataframe_columns_first:
  assumes "distinct (map fst r)"
  shows "\<exists>rest. dataframe_columns (r # records) = map fst r @ rest"
proof -
  have "add_keys [] (map fst r) = map fst r" using add_keys_fresh [OF assms, of "[]"] by simp
  then show ?thesis
    using foldl_add_keys_extends [of "map fst r" "map (map fst) records"]
    by (simp add: dataframe_columns_def)
qed

lemma dataframe_cell:
  assumes "i < length records" "j < length (dataframe_columns records)"
  shows "rows (dataframe_of_records records) ! i ! j =
     (case map_of (records ! i) (dataframe_columns records ! j) of None \<Rightarrow> VNull | Some v \<Rightarrow> v)"
  using assms by (simp add: dataframe_of_records_def dataframe_row_def)

text \<open>The write loop on files with distinct keys.\<close>

lemma map_of_update_same: "map_of (AList.update k v al) k = Some v"
  by (simp add: update_conv')

lemma map_of_update_neq: "t \<noteq> k \<Longrightarrow> map_of (AList.update k v al) t = map_of al t"
  by (simp add: update_conv')

lemma write_loop_entry:
  "distinct (map fst message_files) \<Longrightarrow>
   map_of (write_loop message_files csv) t =
     (case map_of message_files t of
        None \<Rightarrow> map_of csv t
      | Some records \<Rightarrow>
          if records \<noteq> [] then Some (dataframe_of_records records) else map_of csv t)"
proof (induction message_files arbitrary: csv)
  case Nil
  show ?case by simp
next
  case (Cons p message_files)
  obtain k records where p: "p = (k, records)" by (cases p)
  from Cons.prems p have d: "distinct (map fst message_files)"
    and k: "k \<notin> fst ` set message_files" by auto
  from k have none: "map_of message_files k = None" by (simp add: map_of_eq_None_iff)
  show ?case
  proof (cases "t = k")
    case True
    show ?thesis
    proof (cases "records = []")
      case True
      with Cons.IH [OF d, of csv] \<open>t = k\<close> none show ?thesis by (simp add: p)
    next
      case False
      with Cons.IH [OF d, of "AList.update k (dataframe_of_records records) csv"] \<open>t = k\<close> none
      show ?thesis by (simp add: p map_of_update_same)
    qed
  next
    case False
    note neq = this
    show ?thesis
    proof (cases "records = []")
      case True
      with Cons.IH [OF d, of csv] neq show ?thesis by (simp add: p)
    next
      case False
      with Cons.IH [OF d, of "AList.update k (dataframe_of_records records) csv"] neq
      show ?thesis by (simp add: p map_of_update_neq split: option.splits)
    qed
  qed
qed

lemma parse_loop_skip:
  "get_type msg \<in> set [''BAD_DATA'', ''UNKNOWN''] \<Longrightarrow>
   parse_loop (msg # msgs) csv message_files = parse_loop msgs csv message_files"
  by simp

lemma parse_loop_seen:
  "get_type msg \<notin> set [''BAD_DATA'', ''UNKNOWN''] \<Longrightarrow> map_of csv (get_type msg) = Some tbl \<Longrightarrow>
   parse_loop (msg # msgs) csv message_files =
     (case to_dict msg of
        None \<Rightarrow> parse_loop msgs csv message_files
      | Some d \<Rightarrow>
          parse_loop msgs csv
            (AList.map_entry (get_type msg) (\<lambda>records. records @ [d]) message_files))"
  by (simp split: option.splits)

lemma parse_loop_new:
  "get_type msg \<notin> set [''BAD_DATA'', ''UNKNOWN''] \<Longrightarrow> map_of csv (get_type msg) = None \<Longrightarrow>
   parse_loop (msg # msgs) csv message_files =
     (case fieldnames_attr msg of
        Some names \<Rightarrow>
          (case to_dict msg of
             None \<Rightarrow>
               parse_loop msgs (AList.update (get_type msg) \<lparr>columns = names, rows = []\<rparr> csv)
                 (AList.update (get_type msg) [] message_files)
           | Some d \<Rightarrow>
               parse_loop msgs (AList.update (get_type msg) \<lparr>columns = names, rows = []\<rparr> csv)
                 (AList.map_entry (get_type msg) (\<lambda>records. records @ [d])
                    (AList.update (get_type msg) [] message_files)))
      | None \<Rightarrow>
          (case to_dict msg of
             None \<Rightarrow> Inl (OtherException ''to_dict'')
           | Some d \<Rightarrow>
               parse_loop msgs (AList.update (get_type msg) \<lparr>columns = map fst d, rows = []\<rparr> csv)
                 (AList.map_entry (get_type msg) (\<lambda>records. records @ [d])
                    (AList.update (get_type msg) [] message_files))))"
  by (simp split: option.splits)

lemma map_of_entry_same:
  "map_of (AList.map_entry k f al) k = map_option f (map_of al k)"
  by (simp add: map_of_map_entry split: option.splits)

lemma map_of_entry_neq: "t \<noteq> k \<Longrightarrow> map_of (AList.map_entry k f al) t = map_of al t"
  by (simp add: map_of_map_entry)

lemma map_of_entry_None: "map_of (AList.map_entry k f al) t = None \<longleftrightarrow> map_of al t = None"
  by (cases "t = k") (simp_all add: map_of_entry_same map_of_entry_neq)

lemma map_of_update_None:
  "map_of (AList.update k v al) t = None \<longleftrightarrow> t \<noteq> k \<and> map_of al t = None"
  by (cases "t = k") (simp_all add: map_of_update_same map_of_update_neq)

text \<open>
  One turn of the read loop on a message that is not skipped, when the call succeeds.
\<close>

lemma parse_step:
  assumes ns: "get_type msg \<notin> set [''BAD_DATA'', ''UNKNOWN'']"
    and res: "parse_loop (msg # msgs) csv message_files = Inr res"
    and dom: "\<forall>t. (map_of csv t = None) = (map_of message_files t = None)"
  shows "\<exists>csv1 files1. parse_loop msgs csv1 files1 = Inr res \<and>
      (\<forall>t. (map_of csv1 t = None) = (map_of files1 t = None)) \<and>
      (distinct (map fst message_files) \<longrightarrow> distinct (map fst files1)) \<and>
      (\<forall>t. t \<noteq> get_type msg \<longrightarrow>
           map_of csv1 t = map_of csv t \<and> map_of files1 t = map_of message_files t) \<and>
      map_of files1 (get_type msg) =
        Some ((case map_of message_files (get_type msg) of None \<Rightarrow> [] | Some rs \<Rightarrow> rs) @
              (case to_dict msg of None \<Rightarrow> [] | Some d \<Rightarrow> [d])) \<and>
      (case map_of csv (get_type msg) of
         Some tbl \<Rightarrow> map_of csv1 (get_type msg) = Some tbl
       | None \<Rightarrow>
           \<exists>names. map_of csv1 (get_type msg) = Some \<lparr>columns = names, rows = []\<rparr> \<and>
             (fieldnames_attr msg = Some names \<or>
              fieldnames_attr msg = None \<and> (\<exists>d. to_dict msg = Some d \<and> names = map fst d)))"
proof (cases "map_of csv (get_type msg)")
  case (Some tbl)
  from dom have dom': "\<forall>t. (map_of message_files t = None) = (map_of csv t = None)" by auto
  from dom have "(map_of csv (get_type msg) = None) = (map_of message_files (get_type msg) = None)"
    by (rule spec)
  with Some obtain rs where rs: "map_of message_files (get_type msg) = Some rs"
    by (cases "map_of message_files (get_type msg)") simp_all
  show ?thesis
  proof (cases "to_dict msg")
    case None
    from res have "parse_loop msgs csv message_files = Inr res"
      by (simp only: parse_loop_seen [OF ns Some] None option.case)
    then show ?thesis
      using dom' Some rs None by (intro exI [of _ csv] exI [of _ message_files]) simp
  next
    case (Some d)
    note d = this
    let ?f = "AList.map_entry (get_type msg) (\<lambda>records. records @ [d]) message_files"
    from res have "parse_loop msgs csv ?f = Inr res"
      by (simp only: parse_loop_seen [OF ns \<open>map_of csv (get_type msg) = Some tbl\<close>] d option.case)
    then show ?thesis
      using dom' \<open>map_of csv (get_type msg) = Some tbl\<close> rs d
      by (intro exI [of _ csv] exI [of _ ?f])
         (simp add: map_of_entry_None map_of_entry_same map_of_entry_neq distinct_map_entry)
  qed
next
  case None
  note new = this
  from dom have dom': "\<forall>t. (map_of message_files t = None) = (map_of csv t = None)" by auto
  from new dom have fnone: "map_of message_files (get_type msg) = None" by simp
  then have fcase: "(case map_of message_files (get_type msg) of None \<Rightarrow> [] | Some rs \<Rightarrow> rs) = []"
    by simp
  let ?u = "AList.update (get_type msg) [] message_files"
  show ?thesis
  proof (cases "fieldnames_attr msg")
    case (Some names)
    note names = this
    let ?c = "AList.update (get_type msg) \<lparr>columns = names, rows = []\<rparr> csv"
    show ?thesis
    proof (cases "to_dict msg")
      case None
      from res have "parse_loop msgs ?c ?u = Inr res"
        by (simp only: parse_loop_new [OF ns new] names None option.case)
      then show ?thesis
        using dom' new fcase names None
        by (intro exI [of _ ?c] exI [of _ ?u])
           (simp add: map_of_update_None map_of_update_same map_of_update_neq distinct_update)
    next
      case (Some d)
      let ?f = "AList.map_entry (get_type msg) (\<lambda>records. records @ [d]) ?u"
      from res have "parse_loop msgs ?c ?f = Inr res"
        by (simp only: parse_loop_new [OF ns new] names Some option.case)
      then show ?thesis
        using dom' new fcase names Some
        by (intro exI [of _ ?c] exI [of _ ?f])
           (simp add: map_of_update_None map_of_update_same map_of_update_neq distinct_update
              map_of_entry_None map_of_entry_same map_of_entry_neq distinct_map_entry)
    qed
  next
    case None
    note nonames = this
    show ?thesis
    proof (cases "to_dict msg")
      case None
      from res show ?thesis
        by (simp only: parse_loop_new [OF ns new] nonames None option.case sum.distinct)
    next
      case (Some d)
      let ?c = "AList.update (get_type msg) \<lparr>columns = map fst d, rows = []\<rparr> csv"
      let ?f = "AList.map_entry (get_type msg) (\<lambda>records. records @ [d]) ?u"
      from res have "parse_loop msgs ?c ?f = Inr res"
        by (simp only: parse_loop_new [OF ns new] nonames Some option.case)
      then show ?thesis
        using dom' new fcase nonames Some
        by (intro exI [of _ ?c] exI [of _ ?f])
           (simp add: map_of_update_None map_of_update_same map_of_update_neq distinct_update
              map_of_entry_None map_of_entry_same map_of_entry_neq distinct_map_entry)
    qed
  qed
qed

lemma converted_records_Nil: "converted_records t [] = []"
  by (simp add: converted_records_def map_filter_simps)

lemma converted_records_other:
  "get_type msg \<noteq> t \<Longrightarrow> converted_records t (msg # msgs) = converted_records t msgs"
  by (simp add: converted_records_def)

lemma converted_records_same:
  "converted_records (get_type msg) (msg # msgs) =
     (case to_dict msg of None \<Rightarrow> [] | Some d \<Rightarrow> [d]) @ converted_records (get_type msg) msgs"
  by (simp add: converted_records_def map_filter_simps split: option.splits)

lemma parse_loop_domain:
  assumes "parse_loop msgs csv message_files = Inr (csv', files')"
    and "\<forall>t. (map_of csv t = None) = (map_of message_files t = None)"
  shows "\<forall>t. (map_of csv' t = None) = (map_of files' t = None)"
  using assms
proof (induction msgs arbitrary: csv message_files)
  case Nil
  then show ?case by simp
next
  case (Cons msg msgs)
  show ?case
  proof (cases "get_type msg \<in> set [''BAD_DATA'', ''UNKNOWN'']")
    case True
    from Cons.prems(1) have "parse_loop msgs csv message_files = Inr (csv', files')"
      by (simp only: parse_loop_skip [OF True])
    from Cons.IH [OF this Cons.prems(2)] show ?thesis .
  next
    case False
    from parse_step [OF False Cons.prems(1) Cons.prems(2)] obtain csv1 files1 where
      1: "parse_loop msgs csv1 files1 = Inr (csv', files')"
      and 2: "\<forall>t. (map_of csv1 t = None) = (map_of files1 t = None)" by blast
    from Cons.IH [OF 1 2] show ?thesis .
  qed
qed

lemma parse_loop_distinct:
  assumes "parse_loop msgs csv message_files = Inr (csv', files')"
    and "\<forall>t. (map_of csv t = None) = (map_of message_files t = None)"
    and "distinct (map fst message_files)"
  shows "distinct (map fst files')"
  using assms
proof (induction msgs arbitrary: csv message_files)
  case Nil
  then show ?case by simp
next
  case (Cons msg msgs)
  show ?case
  proof (cases "get_type msg \<in> set [''BAD_DATA'', ''UNKNOWN'']")
    case True
    from Cons.prems(1) have "parse_loop msgs csv message_files = Inr (csv', files')"
      by (simp only: parse_loop_skip [OF True])
    from Cons.IH [OF this Cons.prems(2) Cons.prems(3)] show ?thesis .
  next
    case False
    from parse_step [OF False Cons.prems(1) Cons.prems(2)] Cons.prems(3) obtain csv1 files1 where
      1: "parse_loop msgs csv1 files1 = Inr (csv', files')"
      and 2: "\<forall>t. (map_of csv1 t = None) = (map_of files1 t = None)"
      and 3: "distinct (map fst files1)" by blast
    from Cons.IH [OF 1 2 3] show ?thesis .
  qed
qed

lemma parse_loop_files:
  assumes "parse_loop msgs csv message_files = Inr (csv', files')"
    and "\<forall>t. (map_of csv t = None) = (map_of message_files t = None)"
    and "t \<notin> set [''BAD_DATA'', ''UNKNOWN'']"
  shows "map_of files' t =
     (case map_of message_files t of
        Some rs \<Rightarrow> Some (rs @ converted_records t msgs)
      | None \<Rightarrow> if t \<in> get_type ` set msgs then Some (converted_records t msgs) else None)"
  using assms(1,2)
proof (induction msgs arbitrary: csv message_files)
  case Nil
  then show ?case by (simp add: converted_records_Nil split: option.splits)
next
  case (Cons msg msgs)
  show ?case
  proof (cases "get_type msg \<in> set [''BAD_DATA'', ''UNKNOWN'']")
    case True
    with assms(3) have neq: "get_type msg \<noteq> t" by auto
    from Cons.prems(1) have "parse_loop msgs csv message_files = Inr (csv', files')"
      by (simp only: parse_loop_skip [OF True])
    from Cons.IH [OF this Cons.prems(2)] neq show ?thesis
      by (cases "map_of message_files t") (simp_all add: converted_records_other [OF neq])
  next
    case False
    from parse_step [OF False Cons.prems(1) Cons.prems(2)] obtain csv1 files1 where
      1: "parse_loop msgs csv1 files1 = Inr (csv', files')"
      and 2: "\<forall>t. (map_of csv1 t = None) = (map_of files1 t = None)"
      and other: "\<forall>t. t \<noteq> get_type msg \<longrightarrow>
           map_of csv1 t = map_of csv t \<and> map_of files1 t = map_of message_files t"
      and same: "map_of files1 (get_type msg) =
        Some ((case map_of message_files (get_type msg) of None \<Rightarrow> [] | Some rs \<Rightarrow> rs) @
              (case to_dict msg of None \<Rightarrow> [] | Some d \<Rightarrow> [d]))"
      by blast
    note ih = Cons.IH [OF 1 2]
    show ?thesis
    proof (cases "get_type msg = t")
      case False
      with other have "map_of files1 t = map_of message_files t" by simp
      with ih False show ?thesis
        by (cases "map_of message_files t") (simp_all add: converted_records_other [OF False])
    next
      case True
      from same have s: "map_of files1 t =
        Some ((case map_of message_files t of None \<Rightarrow> [] | Some rs \<Rightarrow> rs) @
              (case to_dict msg of None \<Rightarrow> [] | Some d \<Rightarrow> [d]))"
        by (simp only: True)
      have c: "converted_records t (msg # msgs) =
          (case to_dict msg of None \<Rightarrow> [] | Some d \<Rightarrow> [d]) @ converted_records t msgs"
        using converted_records_same [of msg msgs] by (simp only: True)
      from ih have "map_of files' t =
          Some (((case map_of message_files t of None \<Rightarrow> [] | Some rs \<Rightarrow> rs) @
              (case to_dict msg of None \<Rightarrow> [] | Some d \<Rightarrow> [d])) @ converted_records t msgs)"
        by (simp only: s option.case)
      then show ?thesis
        by (cases "map_of message_files t") (simp_all add: True [symmetric] converted_records_same)
    qed
  qed
qed

lemma parse_loop_writers_kept:
  assumes "parse_loop msgs csv message_files = Inr (csv', files')"
    and "\<forall>t. (map_of csv t = None) = (map_of message_files t = None)"
    and "map_of csv t = Some tbl"
  shows "map_of csv' t = Some tbl"
  using assms
proof (induction msgs arbitrary: csv message_files)
  case Nil
  then show ?case by simp
next
  case (Cons msg msgs)
  show ?case
  proof (cases "get_type msg \<in> set [''BAD_DATA'', ''UNKNOWN'']")
    case True
    from Cons.prems(1) have "parse_loop msgs csv message_files = Inr (csv', files')"
      by (simp only: parse_loop_skip [OF True])
    from Cons.IH [OF this Cons.prems(2) Cons.prems(3)] show ?thesis .
  next
    case False
    from parse_step [OF False Cons.prems(1) Cons.prems(2)] obtain csv1 files1 where
      1: "parse_loop msgs csv1 files1 = Inr (csv', files')"
      and 2: "\<forall>t. (map_of csv1 t = None) = (map_of files1 t = None)"
      and other: "\<forall>t. t \<noteq> get_type msg \<longrightarrow>
           map_of csv1 t = map_of csv t \<and> map_of files1 t = map_of message_files t"
      and hdr: "case map_of csv (get_type msg) of
         Some tbl \<Rightarrow> map_of csv1 (get_type msg) = Some tbl
       | None \<Rightarrow>
           \<exists>names. map_of csv1 (get_type msg) = Some \<lparr>columns = names, rows = []\<rparr> \<and>
             (fieldnames_attr msg = Some names \<or>
              fieldnames_attr msg = None \<and> (\<exists>d. to_dict msg = Some d \<and> names = map fst d))"
      by blast
    have "map_of csv1 t = Some tbl"
    proof (cases "get_type msg = t")
      case True
      from hdr Cons.prems(3) show ?thesis by (simp add: True)
    next
      case False
      with other Cons.prems(3) show ?thesis by simp
    qed
    from Cons.IH [OF 1 2 this] show ?thesis .
  qed
qed

lemma parse_loop_header:
  assumes "parse_loop msgs csv message_files = Inr (csv', files')"
    and "\<forall>t. (map_of csv t = None) = (map_of message_files t = None)"
    and "map_of csv t = None"
    and "t \<notin> set [''BAD_DATA'', ''UNKNOWN'']"
    and "find (\<lambda>msg. get_type msg = t) msgs = Some m"
  shows "\<exists>names. map_of csv' t = Some \<lparr>columns = names, rows = []\<rparr> \<and>
           (fieldnames_attr m = Some names \<or>
            fieldnames_attr m = None \<and> (\<exists>d. to_dict m = Some d \<and> names = map fst d))"
  using assms(1,2,3,5)
proof (induction msgs arbitrary: csv message_files)
  case Nil
  then show ?case by simp
next
  case (Cons msg msgs)
  show ?case
  proof (cases "get_type msg \<in> set [''BAD_DATA'', ''UNKNOWN'']")
    case True
    with assms(4) have neq: "get_type msg \<noteq> t" by auto
    from Cons.prems(1) have 1: "parse_loop msgs csv message_files = Inr (csv', files')"
      by (simp only: parse_loop_skip [OF True])
    from Cons.prems(4) neq have f: "find (\<lambda>msg. get_type msg = t) msgs = Some m" by simp
    from Cons.IH [OF 1 Cons.prems(2) Cons.prems(3) f] show ?thesis .
  next
    case False
    from parse_step [OF False Cons.prems(1) Cons.prems(2)] obtain csv1 files1 where
      1: "parse_loop msgs csv1 files1 = Inr (csv', files')"
      and 2: "\<forall>t. (map_of csv1 t = None) = (map_of files1 t = None)"
      and other: "\<forall>t. t \<noteq> get_type msg \<longrightarrow>
           map_of csv1 t = map_of csv t \<and> map_of files1 t = map_of message_files t"
      and hdr: "case map_of csv (get_type msg) of
         Some tbl \<Rightarrow> map_of csv1 (get_type msg) = Some tbl
       | None \<Rightarrow>
           \<exists>names. map_of csv1 (get_type msg) = Some \<lparr>columns = names, rows = []\<rparr> \<and>
             (fieldnames_attr msg = Some names \<or>
              fieldnames_attr msg = None \<and> (\<exists>d. to_dict msg = Some d \<and> names = map fst d))"
      by blast
    show ?thesis
    proof (cases "get_type msg = t")
      case True
      with Cons.prems(4) have m: "m = msg" by simp
      from hdr Cons.prems(3) obtain names where
        n: "map_of csv1 t = Some \<lparr>columns = names, rows = []\<rparr>"
        and h: "fieldnames_attr msg = Some names \<or>
              fieldnames_attr msg = None \<and> (\<exists>d. to_dict msg = Some d \<and> names = map fst d)"
        by (auto simp: True)
      from parse_loop_writers_kept [OF 1 2 n]
      have "map_of csv' t = Some \<lparr>columns = names, rows = []\<rparr>" .
      with h m show ?thesis by blast
    next
      case False
      with other Cons.prems(3) have c: "map_of csv1 t = None" by simp
      from Cons.prems(4) False have f: "find (\<lambda>msg. get_type msg = t) msgs = Some m" by simp
      from Cons.IH [OF 1 2 c f] show ?thesis .
    qed
  qed
qed

lemma parse_loop_returns:
  "\<forall>msg\<in>set msgs. fieldnames_attr msg \<noteq> None \<or> to_dict msg \<noteq> None \<Longrightarrow>
   \<exists>res. parse_loop msgs csv message_files = Inr res"
proof (induction msgs arbitrary: csv message_files)
  case Nil
  show ?case by simp
next
  case (Cons msg msgs)
  from Cons.prems have rest: "\<forall>msg\<in>set msgs. fieldnames_attr msg \<noteq> None \<or> to_dict msg \<noteq> None"
    and this_msg: "fieldnames_attr msg \<noteq> None \<or> to_dict msg \<noteq> None" by simp_all
  note ih = Cons.IH [OF rest]
  show ?case
  proof (cases "get_type msg \<in> set [''BAD_DATA'', ''UNKNOWN'']")
    case True
    from ih [of csv message_files] show ?thesis by (simp only: parse_loop_skip [OF True])
  next
    case False
    note ns = this
    show ?thesis
    proof (cases "map_of csv (get_type msg)")
      case (Some tbl)
      show ?thesis
        by (cases "to_dict msg") (simp_all only: parse_loop_seen [OF ns Some] option.case ih)
    next
      case None
      show ?thesis
      proof (cases "fieldnames_attr msg")
        case (Some names)
        show ?thesis
          by (cases "to_dict msg") (simp_all only: parse_loop_new [OF ns None] Some option.case ih)
      next
        case nonames: None
        with this_msg obtain d where d: "to_dict msg = Some d" by auto
        show ?thesis
          by (simp only: parse_loop_new [OF ns None] nonames d option.case ih)
      qed
    qed
  qed
qed

lemma parse_loop_skipped:
  assumes "parse_loop msgs csv message_files = Inr (csv', files')"
    and "\<forall>t. (map_of csv t = None) = (map_of message_files t = None)"
    and "t \<in> set [''BAD_DATA'', ''UNKNOWN'']"
  shows "map_of files' t = map_of message_files t"
  using assms(1,2)
proof (induction msgs arbitrary: csv message_files)
  case Nil
  then show ?case by simp
next
  case (Cons msg msgs)
  show ?case
  proof (cases "get_type msg \<in> set [''BAD_DATA'', ''UNKNOWN'']")
    case True
    from Cons.prems(1) have "parse_loop msgs csv message_files = Inr (csv', files')"
      by (simp only: parse_loop_skip [OF True])
    from Cons.IH [OF this Cons.prems(2)] show ?thesis .
  next
    case False
    with assms(3) have neq: "t \<noteq> get_type msg" by auto
    from parse_step [OF False Cons.prems(1) Cons.prems(2)] obtain csv1 files1 where
      1: "parse_loop msgs csv1 files1 = Inr (csv', files')"
      and 2: "\<forall>t. (map_of csv1 t = None) = (map_of files1 t = None)"
      and other: "\<forall>t. t \<noteq> get_type msg \<longrightarrow>
           map_of csv1 t = map_of csv t \<and> map_of files1 t = map_of message_files t"
      by blast
    from other neq have "map_of files1 t = map_of message_files t" by simp
    with Cons.IH [OF 1 2] show ?thesis by simp
  qed
qed

lemma converted_records_member:
  "m \<in> set msgs \<Longrightarrow> get_type m = t \<Longrightarrow> to_dict m = Some d \<Longrightarrow> d \<in> set (converted_records t msgs)"
  by (induction msgs) (auto simp: converted_records_def map_filter_simps split: option.splits)

lemma find_type_Some:
  "find (\<lambda>msg. get_type msg = t) msgs = Some m \<Longrightarrow> m \<in> set msgs \<and> get_type m = t"
  by (induction msgs) (auto split: if_splits)

lemma find_type_exists:
  "t \<in> get_type ` set msgs \<Longrightarrow> \<exists>m. find (\<lambda>msg. get_type msg = t) msgs = Some m"
  by (cases "find (\<lambda>msg. get_type msg = t) msgs") (auto simp: find_None_iff)

text \<open>The files of a successful call, by message type.\<close>

lemma materializer_entry:
  assumes ok: "parse_all_mavlink_messages_to_csv msgs = Inr csv"
  shows "map_of csv t =
     (if t \<in> set [''BAD_DATA'', ''UNKNOWN''] \<or> t \<notin> get_type ` set msgs then None
      else if converted_records t msgs \<noteq> []
      then Some (dataframe_of_records (converted_records t msgs))
      else case find (\<lambda>msg. get_type msg = t) msgs of
             None \<Rightarrow> None
           | Some m \<Rightarrow>
               (case fieldnames_attr m of
                  None \<Rightarrow> None
                | Some names \<Rightarrow> Some \<lparr>columns = names, rows = []\<rparr>))"
proof -
  from ok obtain csv' files' where
    pl: "parse_loop msgs [] [] = Inr (csv', files')" and csv: "csv = write_loop files' csv'"
    by (auto simp: parse_all_mavlink_messages_to_csv_def split: sum.splits)
  have dom0: "\<forall>t. (map_of ([] :: (string \<times> table) list) t = None) =
                  (map_of ([] :: (string \<times> (string \<times> val) list list) list) t = None)"
    by simp
  have d0: "distinct (map fst ([] :: (string \<times> (string \<times> val) list list) list))" by simp
  note dom = parse_loop_domain [OF pl dom0]
  note dist = parse_loop_distinct [OF pl dom0 d0]
  have w: "map_of csv t =
     (case map_of files' t of
        None \<Rightarrow> map_of csv' t
      | Some records \<Rightarrow>
          if records \<noteq> [] then Some (dataframe_of_records records) else map_of csv' t)"
    unfolding csv using dist by (rule write_loop_entry)
  from dom have domt: "(map_of csv' t = None) = (map_of files' t = None)" by (rule spec)
  show ?thesis
  proof (cases "t \<in> set [''BAD_DATA'', ''UNKNOWN'']")
    case True
    from parse_loop_skipped [OF pl dom0 True] have f: "map_of files' t = None" by simp
    with domt have "map_of csv' t = None" by simp
    with w f True show ?thesis by simp
  next
    case False
    note ns = this
    from parse_loop_files [OF pl dom0 ns]
    have f: "map_of files' t =
        (if t \<in> get_type ` set msgs then Some (converted_records t msgs) else None)"
      by simp
    show ?thesis
    proof (cases "t \<in> get_type ` set msgs")
      case False
      with f have fn: "map_of files' t = None" by simp
      with domt have "map_of csv' t = None" by simp
      with w fn False show ?thesis by simp
    next
      case True
      with f have fs: "map_of files' t = Some (converted_records t msgs)" by simp
      show ?thesis
      proof (cases "converted_records t msgs = []")
        case False
        with w fs ns True show ?thesis by simp
      next
        case empty: True
        from find_type_exists [OF True] obtain m
          where m: "find (\<lambda>msg. get_type msg = t) msgs = Some m" ..
        have c0: "map_of ([] :: (string \<times> table) list) t = None" by simp
        from parse_loop_header [OF pl dom0 c0 ns m] obtain names where
          n: "map_of csv' t = Some \<lparr>columns = names, rows = []\<rparr>"
          and h: "fieldnames_attr m = Some names \<or>
            fieldnames_attr m = None \<and> (\<exists>d. to_dict m = Some d \<and> names = map fst d)"
          by blast
        from find_type_Some [OF m] have mem: "m \<in> set msgs" and ty: "get_type m = t" by simp_all
        have "fieldnames_attr m = Some names"
        proof (rule ccontr)
          assume "fieldnames_attr m \<noteq> Some names"
          with h obtain d where "to_dict m = Some d" by blast
          from converted_records_member [OF mem ty this] empty show False by simp
        qed
        with w fs ns True empty m n show ?thesis by simp
      qed
    qed
  qed
qed

lemma materializer_returns:
  assumes "\<forall>msg\<in>set msgs. fieldnames_attr msg \<noteq> None \<or> to_dict msg \<noteq> None"
  shows "\<exists>csv. parse_all_mavlink_messages_to_csv msgs = Inr csv"
proof -
  from parse_loop_returns [OF assms, of "[]" "[]"] obtain res
    where "parse_loop msgs [] [] = Inr res" ..
  then show ?thesis
    by (cases res) (simp add: parse_all_mavlink_messages_to_csv_def)
qed

text \<open>
  Claim C4, amended. When every message has field names or converts to a dict, the Record
  Materializer returns, and a call that returns has written one file for every message
  type that occurs, \<^verbatim>\<open>BAD_DATA\<close> and \<^verbatim>\<open>UNKNOWN\<close> apart. When no record of a type was
  converted, the file is the header written for the first message of the type, its field
  names, without rows. Otherwise the file is the frame of the converted records of the
  type: its columns are the keys of all these records, each once, in the order in which
  they are first seen, so that the keys of the first converted record come first, in
  that record's order, and a field that only a later record has is added as a further
  column (it is not ignored); every converted record is one row, in the order of arrival,
  and a column absent from a record is null in its row.
\<close>

theorem materializer_columns:
  "((\<forall>msg\<in>set msgs. fieldnames_attr msg \<noteq> None \<or> to_dict msg \<noteq> None) \<longrightarrow>
      (\<exists>csv. parse_all_mavlink_messages_to_csv msgs = Inr csv))
   \<and> (\<forall>csv. parse_all_mavlink_messages_to_csv msgs = Inr csv \<longrightarrow>
        (\<forall>t. map_of csv t \<noteq> None \<longleftrightarrow>
               t \<notin> set [''BAD_DATA'', ''UNKNOWN''] \<and> t \<in> get_type ` set msgs) \<and>
        (\<forall>t tbl. map_of csv t = Some tbl \<longrightarrow>
           (if converted_records t msgs = []
            then rows tbl = [] \<and>
                 (\<exists>m. find (\<lambda>msg. get_type msg = t) msgs = Some m \<and>
                      fieldnames_attr m = Some (columns tbl))
            else tbl = dataframe_of_records (converted_records t msgs) \<and>
                 distinct (columns tbl) \<and>
                 set (columns tbl) = (\<Union>r\<in>set (converted_records t msgs). fst ` set r) \<and>
                 (distinct (map fst (hd (converted_records t msgs))) \<longrightarrow>
                    (\<exists>rest. columns tbl = map fst (hd (converted_records t msgs)) @ rest)) \<and>
                 length (rows tbl) = length (converted_records t msgs) \<and>
                 (\<forall>i<length (converted_records t msgs). \<forall>j<length (columns tbl).
                    rows tbl ! i ! j =
                      (case map_of (converted_records t msgs ! i) (columns tbl ! j) of
                         None \<Rightarrow> VNull
                       | Some v \<Rightarrow> v)))))"
proof (intro conjI allI impI)
  assume "\<forall>msg\<in>set msgs. fieldnames_attr msg \<noteq> None \<or> to_dict msg \<noteq> None"
  then show "\<exists>csv. parse_all_mavlink_messages_to_csv msgs = Inr csv"
    by (rule materializer_returns)
next
  fix csv t
  assume ok: "parse_all_mavlink_messages_to_csv msgs = Inr csv"
  note e = materializer_entry [OF ok, of t]
  show "map_of csv t \<noteq> None \<longleftrightarrow>
          t \<notin> set [''BAD_DATA'', ''UNKNOWN''] \<and> t \<in> get_type ` set msgs"
  proof (cases "t \<in> set [''BAD_DATA'', ''UNKNOWN''] \<or> t \<notin> get_type ` set msgs")
    case True
    with e have "map_of csv t = None" by (simp only: if_True)
    with True show ?thesis by blast
  next
    case False
    then have ns: "t \<notin> set [''BAD_DATA'', ''UNKNOWN'']" and ty: "t \<in> get_type ` set msgs"
      by blast+
    have "map_of csv t \<noteq> None"
    proof (cases "converted_records t msgs = []")
      case nonempty: False
      with e False show ?thesis by simp
    next
      case empty: True
      show ?thesis
      proof
        assume none: "map_of csv t = None"
        from ok obtain csv' files' where
          pl: "parse_loop msgs [] [] = Inr (csv', files')" and csv: "csv = write_loop files' csv'"
          by (auto simp: parse_all_mavlink_messages_to_csv_def split: sum.splits)
        have dom0: "\<forall>t. (map_of ([] :: (string \<times> table) list) t = None) =
                  (map_of ([] :: (string \<times> (string \<times> val) list list) list) t = None)"
          by simp
        have c0: "map_of ([] :: (string \<times> table) list) t = None" by simp
        from find_type_exists [OF ty] obtain m
          where m: "find (\<lambda>msg. get_type msg = t) msgs = Some m" ..
        from parse_loop_header [OF pl dom0 c0 ns m] obtain names where
          h: "fieldnames_attr m = Some names \<or>
            fieldnames_attr m = None \<and> (\<exists>d. to_dict m = Some d \<and> names = map fst d)"
          by blast
        from find_type_Some [OF m] have mem: "m \<in> set msgs" and mt: "get_type m = t" by simp_all
        have "fieldnames_attr m \<noteq> None"
        proof
          assume "fieldnames_attr m = None"
          with h obtain d where "to_dict m = Some d" by auto
          from converted_records_member [OF mem mt this] empty show False by simp
        qed
        then obtain names' where "fieldnames_attr m = Some names'" by auto
        with e False empty m have "map_of csv t = Some \<lparr>columns = names', rows = []\<rparr>" by simp
        with none show False by simp
      qed
    qed
    with ns ty show ?thesis by blast
  qed
next
  fix csv t tbl
  assume ok: "parse_all_mavlink_messages_to_csv msgs = Inr csv"
    and tbl: "map_of csv t = Some tbl"
  note e = materializer_entry [OF ok, of t]
  from e tbl have side: "\<not> (t \<in> set [''BAD_DATA'', ''UNKNOWN''] \<or> t \<notin> get_type ` set msgs)"
    by (auto split: if_splits)
  show "if converted_records t msgs = []
        then rows tbl = [] \<and>
             (\<exists>m. find (\<lambda>msg. get_type msg = t) msgs = Some m \<and>
                  fieldnames_attr m = Some (columns tbl))
        else tbl = dataframe_of_records (converted_records t msgs) \<and>
             distinct (columns tbl) \<and>
             set (columns tbl) = (\<Union>r\<in>set (converted_records t msgs). fst ` set r) \<and>
             (distinct (map fst (hd (converted_records t msgs))) \<longrightarrow>
                (\<exists>rest. columns tbl = map fst (hd (converted_records t msgs)) @ rest)) \<and>
             length (rows tbl) = length (converted_records t msgs) \<and>
             (\<forall>i<length (converted_records t msgs). \<forall>j<length (columns tbl).
                rows tbl ! i ! j =
                  (case map_of (converted_records t msgs ! i) (columns tbl ! j) of
                     None \<Rightarrow> VNull
                   | Some v \<Rightarrow> v))"
  proof (cases "converted_records t msgs = []")
    case True
    from e tbl side True obtain m names where
      m: "find (\<lambda>msg. get_type msg = t) msgs = Some m"
      and n: "fieldnames_attr m = Some names" and t: "tbl = \<lparr>columns = names, rows = []\<rparr>"
      by (auto split: option.splits)
    from m n t True show ?thesis by simp
  next
    case False
    let ?rs = "converted_records t msgs"
    from e tbl side False have t: "tbl = dataframe_of_records ?rs" by simp
    have c: "columns tbl = dataframe_columns ?rs" by (simp add: t dataframe_of_records_def)
    have 1: "distinct (columns tbl)" unfolding c by (rule distinct_dataframe_columns)
    have 2: "set (columns tbl) = (\<Union>r\<in>set ?rs. fst ` set r)"
      unfolding c by (rule set_dataframe_columns)
    have 3: "distinct (map fst (hd ?rs)) \<longrightarrow> (\<exists>rest. columns tbl = map fst (hd ?rs) @ rest)"
    proof
      assume d: "distinct (map fst (hd ?rs))"
      from False have "?rs = hd ?rs # tl ?rs" by simp
      with dataframe_columns_first [OF d, of "tl ?rs"] show "\<exists>rest. columns tbl = map fst (hd ?rs) @ rest"
        by (simp add: c)
    qed
    have 4: "length (rows tbl) = length ?rs" by (simp add: t dataframe_of_records_def)
    have 5: "\<forall>i<length ?rs. \<forall>j<length (columns tbl).
                rows tbl ! i ! j =
                  (case map_of (?rs ! i) (columns tbl ! j) of None \<Rightarrow> VNull | Some v \<Rightarrow> v)"
      unfolding c unfolding t by (intro allI impI) (rule dataframe_cell)
    from False t 1 2 3 4 5 show ?thesis by simp
  qed
qed

lemma example_log_result:
  "parse_all_mavlink_messages_to_csv example_log =
     Inr [(''ATT'', \<lparr>columns = [''x'', ''y''], rows = [[VInt 1, VNull], [VInt 2, VInt 3]]\<rparr>),
          (''GPS'', \<lparr>columns = [''lat''], rows = []\<rparr>)]"
  by (simp add: parse_all_mavlink_messages_to_csv_def example_log_def dataframe_of_records_def
      dataframe_columns_def dataframe_row_def)

lemma example_log_records:
  "converted_records ''ATT'' example_log = [[(''x'', VInt 1)], [(''x'', VInt 2), (''y'', VInt 3)]]"
  "converted_records ''GPS'' example_log = []"
  by (simp_all add: converted_records_def example_log_def map_filter_simps)

theorem materializer_columns_counterexample:
  "parse_all_mavlink_messages_to_csv example_log =
     Inr [(''ATT'', \<lparr>columns = [''x'', ''y''], rows = [[VInt 1, VNull], [VInt 2, VInt 3]]\<rparr>),
          (''GPS'', \<lparr>columns = [''lat''], rows = []\<rparr>)]
   \<and> converted_records ''ATT'' example_log =
       [[(''x'', VInt 1)], [(''x'', VInt 2), (''y'', VInt 3)]]"
  using example_log_result example_log_records(1) by (rule conjI)

theorem materializer_columns_witness:
  "list_all (\<lambda>msg. fieldnames_attr msg = Some [''x''] \<or> fieldnames_attr msg = Some [''lat''] \<or>
                    fieldnames_attr msg = Some [''data'', ''reason'']) example_log
   \<and> (\<exists>csv. parse_all_mavlink_messages_to_csv example_log = Inr csv)
   \<and> parse_all_mavlink_messages_to_csv example_log =
       Inr [(''ATT'', \<lparr>columns = [''x'', ''y''], rows = [[VInt 1, VNull], [VInt 2, VInt 3]]\<rparr>),
            (''GPS'', \<lparr>columns = [''lat''], rows = []\<rparr>)]
   \<and> converted_records ''ATT'' example_log =
       [[(''x'', VInt 1)], [(''x'', VInt 2), (''y'', VInt 3)]]
   \<and> \<lparr>columns = [''x'', ''y''], rows = [[VInt 1, VNull], [VInt 2, VInt 3]]\<rparr> =
       dataframe_of_records (converted_records ''ATT'' example_log)
   \<and> converted_records ''GPS'' example_log = []
   \<and> rows \<lparr>columns = [''lat''], rows = []\<rparr> = []
   \<and> map_of [(''ATT'', \<lparr>columns = [''x'', ''y''], rows = [[VInt 1, VNull], [VInt 2, VInt 3]]\<rparr>),
              (''GPS'', \<lparr>columns = [''lat''], rows = []\<rparr>)] ''BAD_DATA'' = None"
proof -
  let ?csv = "[(''ATT'', \<lparr>columns = [''x'', ''y''], rows = [[VInt 1, VNull], [VInt 2, VInt 3]]\<rparr>),
               (''GPS'', \<lparr>columns = [''lat''], rows = []\<rparr>)]"
  have l: "list_all (\<lambda>msg. fieldnames_attr msg = Some [''x''] \<or> fieldnames_attr msg = Some [''lat''] \<or>
                    fieldnames_attr msg = Some [''data'', ''reason'']) example_log"
    by (simp add: example_log_def)
  have h: "\<forall>msg\<in>set example_log. fieldnames_attr msg \<noteq> None \<or> to_dict msg \<noteq> None"
    by (simp add: example_log_def)
  note ex = materializer_columns [of example_log, THEN conjunct1, THEN mp, OF h]
  note r = materializer_columns [of example_log, THEN conjunct2, rule_format, OF example_log_result]
  note dom = r [THEN conjunct1, rule_format, of "''BAD_DATA''"]
  have a: "map_of ?csv ''ATT'' =
      Some \<lparr>columns = [''x'', ''y''], rows = [[VInt 1, VNull], [VInt 2, VInt 3]]\<rparr>" by simp
  have g: "map_of ?csv ''GPS'' = Some \<lparr>columns = [''lat''], rows = []\<rparr>" by simp
  note att = r [THEN conjunct2, rule_format, OF a]
  note gps = r [THEN conjunct2, rule_format, OF g]
  have ne: "converted_records ''ATT'' example_log \<noteq> []" by (simp add: example_log_records)
  from dom have b: "map_of ?csv ''BAD_DATA'' = None" by simp
  note d = att [unfolded if_not_P [OF ne], THEN conjunct1]
  note e = gps [unfolded if_P [OF example_log_records(2)], THEN conjunct1]
  show ?thesis
    using l ex example_log_result example_log_records(1) d example_log_records(2) e b
    by (intro conjI)
qed

end
